theory Spec2Isabelle
  imports Main
begin

section \<open>Python values\<close>

text \<open>
  The emailer is dynamically typed: configuration records, rows and option lists are
  dictionaries of loosely typed values. \<open>pyval\<close> is the part of Python's value space the
  code can meet there. A dictionary is an association list in insertion order; the
  dictionaries the row store hands out have distinct keys. Strings are lists of
  characters (ASCII; Unicode whitespace beyond it is not modelled).
\<close>

datatype pyval =
    PNone
  | PBool bool
  | PInt int
  | PStr string
  | PList "pyval list"
  | PDict "(string \<times> pyval) list"

type_synonym pydict = "(string \<times> pyval) list"

text \<open>Every \<open>raise\<close> of the source and of the libraries it calls is a value of \<open>error\<close>.\<close>

datatype error =
    KeyError pyval
  | ValueError string
  | AttributeError
  | TypeError
  | RequestException
  | HTTPError nat
  | TemplateSyntaxError
  | TemplateError
  | StoreError
  | AuthError
  | Exception string

text \<open>Python's truth value testing (\<open>if x\<close>, \<open>not x\<close>, \<open>bool(x)\<close>, \<open>any\<close>).\<close>

fun truthy :: "pyval \<Rightarrow> bool" where
  "truthy PNone = False"
| "truthy (PBool b) = b"
| "truthy (PInt i) = (i \<noteq> 0)"
| "truthy (PStr s) = (s \<noteq> [])"
| "truthy (PList xs) = (xs \<noteq> [])"
| "truthy (PDict d) = (d \<noteq> [])"

subsection \<open>Dictionaries\<close>

text \<open>\<open>d[k] = v\<close>: an existing key keeps its place and takes the new value.\<close>

fun dict_set :: "'k \<Rightarrow> 'v \<Rightarrow> ('k \<times> 'v) list \<Rightarrow> ('k \<times> 'v) list" where
  "dict_set k v [] = [(k, v)]"
| "dict_set k v ((k', v') # d) =
     (if k' = k then (k, v) # d else (k', v') # dict_set k v d)"

text \<open>\<open>d[k]\<close> raises \<open>KeyError\<close> on a missing key; \<open>d.get(k, default)\<close> does not.\<close>

definition dict_item :: "pydict \<Rightarrow> string \<Rightarrow> error + pyval" where
  "dict_item d k = (case map_of d k of None \<Rightarrow> Inl (KeyError (PStr k)) | Some v \<Rightarrow> Inr v)"

definition dict_get :: "pydict \<Rightarrow> string \<Rightarrow> pyval \<Rightarrow> pyval" where
  "dict_get d k dflt = (case map_of d k of None \<Rightarrow> dflt | Some v \<Rightarrow> v)"

subsection \<open>Strings\<close>

text \<open>
  \<open>str.strip()\<close> removes leading and trailing whitespace: tab, line feed, vertical tab,
  form feed, carriage return, the four separators 0x1C..0x1F and the space.
\<close>

definition py_isspace :: "char \<Rightarrow> bool" where
  "py_isspace c = (c \<in> set [CHR 0x09, CHR 0x0A, CHR 0x0B, CHR 0x0C, CHR 0x0D,
                             CHR 0x1C, CHR 0x1D, CHR 0x1E, CHR 0x1F, CHR 0x20])"

definition py_strip :: "string \<Rightarrow> string" where
  "py_strip s = rev (dropWhile py_isspace (rev (dropWhile py_isspace s)))"

text \<open>\<open>s.split(sep)\<close> for a one-character separator; \<open>"".split(",")\<close> is \<open>[""]\<close>.\<close>

fun py_split :: "char \<Rightarrow> string \<Rightarrow> string list" where
  "py_split sep [] = [[]]"
| "py_split sep (c # cs) =
     (if c = sep then [] # py_split sep cs
      else (case py_split sep cs of
              [] \<Rightarrow> [[c]]
            | w # ws \<Rightarrow> (c # w) # ws))"

text \<open>\<open>key.replace(" ", "_")\<close>.\<close>

definition replace_spaces :: "string \<Rightarrow> string" where
  "replace_spaces key = map (\<lambda>c. if c = CHR '' '' then CHR ''_'' else c) key"

section \<open>emailer.py: helpers\<close>

text \<open>
  \<open>comma_delimited_to_list\<close>: a falsy input gives the empty list; otherwise the input is
  split at commas and every item stripped. A truthy value that is not a string has no
  \<open>split\<close> method.
\<close>

definition comma_delimited_to_list :: "pyval \<Rightarrow> error + string list" where
  "comma_delimited_to_list input_string =
     (if truthy input_string then
        (case input_string of
           PStr s \<Rightarrow> Inr (map py_strip (py_split (CHR '','') s))
         | _ \<Rightarrow> Inl AttributeError)
      else Inr [])"

text \<open>
  The dictionary comprehension of \<open>create_email_message\<close>:
  \<open>{key.replace(" ", "_"): value for key, value in variables.items()}\<close>.
\<close>

definition rename_variables :: "pydict \<Rightarrow> pydict" where
  "rename_variables variables =
     foldl (\<lambda>d (key, val). dict_set (replace_spaces key) val d) [] variables"

section \<open>Collaborators\<close>

text \<open>
  The row store, the template host, the template engine, the mail API and the token
  library are not part of the repository. Their state is the \<open>world\<close>; what they answer
  is taken from an \<open>env\<close> of parameters, one per call the code makes, so that every
  failure the code guards against can be chosen freely.
\<close>

record table_field =
  field_TYPE :: string
  options_details :: "pydict list"

record row =
  row_id :: nat
  row_values :: pydict

record table =
  table_fields :: "(string \<times> table_field) list"
  table_rows :: "row list"

record mail =
  mail_endpoint :: string
  mail_authorization :: string
  mail_subject :: pyval
  mail_body :: string
  mail_toRecipients :: "string list"
  mail_ccRecipients :: "string list option"
  mail_from :: "string option"

text \<open>
  \<open>tables\<close> is the row store's content. \<open>writes\<close> lists the row updates the store
  accepted (table, row, field, value) and \<open>posts\<close> the requests made to the mail API,
  both oldest first; \<open>auth_calls\<close> lists the token requests.
\<close>

record world =
  tables :: "pyval \<Rightarrow> table option"
  writes :: "(pyval \<times> nat \<times> string \<times> pyval) list"
  posts :: "mail list"
  auth_calls :: "(pyval \<times> pyval) list"

record env =
  get_rows_error :: "pyval \<Rightarrow> bool"
  update_error :: "pyval \<Rightarrow> nat \<Rightarrow> string \<Rightarrow> pyval \<Rightarrow> bool"
  http_get :: "pyval \<Rightarrow> error + (nat \<times> string)"
  jinja_parse_ok :: "string \<Rightarrow> bool"
  jinja_render :: "string \<Rightarrow> pydict \<Rightarrow> error + string"
  graph_post :: "mail \<Rightarrow> error + nat"
  msal_token :: "pyval \<Rightarrow> pyval \<Rightarrow> error + string"

text \<open>Sequencing of calls that may raise: the first exception ends the computation.\<close>

definition bind_err :: "error + 'a \<Rightarrow> ('a \<Rightarrow> error + 'b) \<Rightarrow> error + 'b" where
  "bind_err m f = (case m of Inl e \<Rightarrow> Inl e | Inr x \<Rightarrow> f x)"

subsection \<open>The row store (baserowapi)\<close>

definition get_table :: "world \<Rightarrow> pyval \<Rightarrow> error + table" where
  "get_table w table_id = (case tables w table_id of None \<Rightarrow> Inl StoreError | Some t \<Rightarrow> Inr t)"

definition field_names :: "table \<Rightarrow> string list" where
  "field_names t = map fst (table_fields t)"

text \<open>
  A cell of a single-select field holds the identifier of the chosen option, \<open>PNone\<close>
  when blank; a cell the row does not list is blank.
\<close>

definition cell :: "row \<Rightarrow> string \<Rightarrow> pyval" where
  "cell r f = dict_get (row_values r) f PNone"

datatype row_filter = Filter string pyval string

fun filter_matches :: "row_filter \<Rightarrow> row \<Rightarrow> bool" where
  "filter_matches (Filter f v operator) r =
     (if operator = ''single_select_equal'' then cell r f = v
      else if operator = ''empty'' then cell r f = PNone
      else if operator = ''boolean'' then cell r f = PBool (v = PStr ''true'')
      else False)"

definition get_rows :: "env \<Rightarrow> pyval \<Rightarrow> table \<Rightarrow> row_filter list \<Rightarrow> string \<Rightarrow> error + row list" where
  "get_rows env table_id t filters filter_type =
     (if get_rows_error env table_id then Inl StoreError
      else Inr (filter (\<lambda>r. if filter_type = ''OR'' then list_ex (\<lambda>f. filter_matches f r) filters
                             else list_all (\<lambda>f. filter_matches f r) filters) (table_rows t)))"

text \<open>The effect of an accepted \<open>row.update({field: value})\<close> on the store.\<close>

definition write_row :: "pyval \<Rightarrow> nat \<Rightarrow> string \<Rightarrow> pyval \<Rightarrow> world \<Rightarrow> world" where
  "write_row table_id rid f v w =
     w\<lparr>tables := (tables w)(table_id :=
          map_option (\<lambda>t. t\<lparr>table_rows := map (\<lambda>r. if row_id r = rid
                                               then r\<lparr>row_values := dict_set f v (row_values r)\<rparr>
                                               else r) (table_rows t)\<rparr>)
            (tables w table_id)),
       writes := writes w @ [(table_id, rid, f, v)]\<rparr>"

text \<open>
  \<open>row.update\<close>: the store either refuses (an exception, nothing changes) or accepts;
  then the row object holds the new value too.
\<close>

definition row_update :: "env \<Rightarrow> pyval \<Rightarrow> row \<Rightarrow> string \<Rightarrow> pyval \<Rightarrow> world \<Rightarrow> error + (row \<times> world)" where
  "row_update env table_id r f v w =
     (if update_error env table_id (row_id r) f v then Inl StoreError
      else Inr (r\<lparr>row_values := dict_set f v (row_values r)\<rparr>, write_row table_id (row_id r) f v w))"

subsection \<open>requests\<close>

text \<open>\<open>Response.raise_for_status()\<close> raises \<open>HTTPError\<close> for the statuses 400 to 599 only.\<close>

definition raise_for_status :: "nat \<Rightarrow> error + unit" where
  "raise_for_status status_code =
     (if 400 \<le> status_code \<and> status_code < 600 then Inl (HTTPError status_code) else Inr ())"

text \<open>\<open>HTTPError\<close> is a subclass of \<open>RequestException\<close>.\<close>

fun is_request_exception :: "error \<Rightarrow> bool" where
  "is_request_exception RequestException = True"
| "is_request_exception (HTTPError _) = True"
| "is_request_exception _ = False"

section \<open>send\_email.py\<close>

text \<open>\<open>subject[:50]\<close>, evaluated for the log line, needs a value that can be sliced.\<close>

fun sliceable :: "pyval \<Rightarrow> bool" where
  "sliceable (PStr _) = True"
| "sliceable (PList _) = True"
| "sliceable _ = False"

definition send_email ::
  "env \<Rightarrow> string \<Rightarrow> pyval \<Rightarrow> string list \<Rightarrow> string \<Rightarrow> string option \<Rightarrow> string list option \<Rightarrow>
   world \<Rightarrow> (error + unit) \<times> world" where
  "send_email env access_token subject recipients body from_email cc w =
     (let cc_recipients = (case cc of None \<Rightarrow> [] | Some l \<Rightarrow> l);
          sender = (case from_email of None \<Rightarrow> None | Some a \<Rightarrow> if a = [] then None else Some a);
          message = \<lparr>mail_endpoint =
                       (case sender of
                          Some a \<Rightarrow> ''https://graph.microsoft.com/v1.0/users/'' @ a @ ''/sendMail''
                        | None \<Rightarrow> ''https://graph.microsoft.com/v1.0/me/sendMail''),
                     mail_authorization = ''Bearer '' @ access_token,
                     mail_subject = subject,
                     mail_body = body,
                     mail_toRecipients = recipients,
                     mail_ccRecipients = (if cc_recipients = [] then None else Some cc_recipients),
                     mail_from = sender\<rparr>
      in if \<not> sliceable subject then (Inl TypeError, w)
         else
           (let w' = w\<lparr>posts := posts w @ [message]\<rparr>
            in case graph_post env message of
                 Inl e \<Rightarrow>
                   (if is_request_exception e then Inl (Exception ''Failed to send email.'') else Inl e, w')
               | Inr status_code \<Rightarrow>
                   if status_code = 202 then (Inr (), w')
                   else (case raise_for_status status_code of
                           Inl e \<Rightarrow> (Inl (Exception ''Failed to send email.''), w')
                         | Inr _ \<Rightarrow> (Inr (), w'))))"

section \<open>emailer.py\<close>

subsection \<open>get\_option\_id\<close>

text \<open>
  The index \<open>{option["value"]: option for option in options_details}\<close>: a later option
  with the same value replaces an earlier one; an option without \<open>"value"\<close> raises
  \<open>KeyError\<close>, a list or dictionary as value cannot be a key. (Python identifies the
  keys \<open>1\<close> and \<open>True\<close>; the index is only ever read at a string.)
\<close>

fun hashable :: "pyval \<Rightarrow> bool" where
  "hashable (PList _) = False"
| "hashable (PDict _) = False"
| "hashable _ = True"

fun build_options_index :: "pydict list \<Rightarrow> (pyval \<times> pydict) list \<Rightarrow> error + (pyval \<times> pydict) list" where
  "build_options_index [] options_index = Inr options_index"
| "build_options_index (option # rest) options_index =
     (case dict_item option ''value'' of
        Inl e \<Rightarrow> Inl e
      | Inr k \<Rightarrow> if hashable k then build_options_index rest (dict_set k option options_index)
                 else Inl TypeError)"

definition quoted :: "string \<Rightarrow> string" where
  "quoted s = CHR 0x27 # s @ [CHR 0x27]"

definition get_option_id :: "pydict list \<Rightarrow> string \<Rightarrow> error + pyval" where
  "get_option_id options_details' option_value =
     bind_err (build_options_index options_details' []) (\<lambda>options_index.
       let option_details = map_of options_index (PStr option_value);
           option_id = (case option_details of
                          None \<Rightarrow> PNone
                        | Some od \<Rightarrow> if od \<noteq> [] then dict_get od ''id'' PNone else PNone)
       in if \<not> truthy option_id
          then Inl (ValueError (''The option '' @ quoted option_value @
                                 '' is not found in the provided options.''))
          else Inr option_id)"

subsection \<open>create\_email\_message\<close>

text \<open>\<open>validate_jinja2_template\<close> returns \<open>True\<close> or raises.\<close>

definition validate_jinja2_template :: "env \<Rightarrow> string \<Rightarrow> error + bool" where
  "validate_jinja2_template env template_content =
     (if jinja_parse_ok env template_content then Inr True else Inl TemplateSyntaxError)"

text \<open>
  The three \<open>except\<close> clauses log and re-raise, so every exception leaves the function as
  it is. \<open>Template(template_content)\<close> parses the text \<open>validate_jinja2_template\<close> has
  parsed already.
\<close>

definition create_email_message :: "env \<Rightarrow> pydict \<Rightarrow> pyval \<Rightarrow> error + string" where
  "create_email_message env variables template_url =
     bind_err (http_get env template_url) (\<lambda>(status_code, template_content).
     bind_err (raise_for_status status_code) (\<lambda>_.
     bind_err (validate_jinja2_template env template_content) (\<lambda>valid_template.
       if \<not> valid_template then Inl (ValueError ''The Jinja2 template is not valid.'')
       else jinja_render env template_content (rename_variables variables))))"

subsection \<open>process\_emailer\_config\<close>

text \<open>
  The locals of \<open>process_emailer_config\<close> that the row loop reads (\<open>subject\<close> is
  \<open>configuration.get("Subject", "No Subject")\<close>, the same for every row), and the
  identifier of the Queued option.
\<close>

record pipeline =
  source_table_id :: pyval
  trigger_field :: string
  recipient_field :: string
  cc_recipients :: "string list"
  queued_option_id :: pyval
  inprogress_option_id :: pyval
  sent_option_id :: pyval
  email_template_url :: pyval
  subject :: pyval

text \<open>\<open>configuration["Message Template"].get("url", None)\<close>: only a dictionary has \<open>get\<close>.\<close>

definition template_url_of :: "pyval \<Rightarrow> error + pyval" where
  "template_url_of message_template =
     (case message_template of PDict d \<Rightarrow> Inr (dict_get d ''url'' PNone) | _ \<Rightarrow> Inl AttributeError)"

text \<open>\<open>source_table.fields[trigger_field]\<close>.\<close>

definition table_field_item :: "table \<Rightarrow> string \<Rightarrow> error + table_field" where
  "table_field_item t f =
     (case map_of (table_fields t) f of None \<Rightarrow> Inl (KeyError (PStr f)) | Some fd \<Rightarrow> Inr fd)"

text \<open>
  Lines 106 to 192: everything before the row loop. \<open>Inl e\<close> is an exception (logged and
  re-raised by the outer handler), \<open>Inr None\<close> one of the logged early returns, and
  \<open>Inr (Some (p, queued_rows))\<close> the state in which the loop starts. A field name of the
  configuration that is found among the table's field names is a string.
\<close>

definition resolve_pipeline :: "env \<Rightarrow> pydict \<Rightarrow> world \<Rightarrow> error + (pipeline \<times> row list) option" where
  "resolve_pipeline env configuration w =
     bind_err (dict_item configuration ''Source Table ID'') (\<lambda>source_table_id'.
     bind_err (dict_item configuration ''Email Trigger Field'') (\<lambda>trigger_field'.
     bind_err (dict_item configuration ''Trigger On Blank'') (\<lambda>trigger_on_blank'.
     bind_err (dict_item configuration ''Email Recipient Field'') (\<lambda>recipient_field'.
     bind_err (dict_item configuration ''CC Recipients'') (\<lambda>cc_value.
     bind_err (comma_delimited_to_list cc_value) (\<lambda>cc_recipients'.
     bind_err (get_table w source_table_id') (\<lambda>source_table.
     bind_err (dict_item configuration ''Message Template Fields'') (\<lambda>template_fields_value.
     bind_err (comma_delimited_to_list template_fields_value) (\<lambda>template_fields.
       let trigger_on_blank = truthy trigger_on_blank';
           include_fields = [trigger_field', recipient_field'] @ map PStr template_fields;
           source_table_fields = map PStr (field_names source_table)
       in if \<not> list_all (\<lambda>field. field \<in> set source_table_fields) include_fields then Inr None
          else
            (case (trigger_field', recipient_field') of
               (PStr trigger_field_name, PStr recipient_field_name) \<Rightarrow>
                 bind_err (table_field_item source_table trigger_field_name) (\<lambda>trigger.
                   if field_TYPE trigger \<noteq> ''single_select'' then Inr None
                   else
                     bind_err (get_option_id (options_details trigger) ''Queued'') (\<lambda>queued.
                       if \<not> truthy queued then Inr None
                       else
                     bind_err (get_option_id (options_details trigger) ''In Progress'') (\<lambda>inprogress.
                       if \<not> truthy inprogress then Inr None
                       else
                     bind_err (get_option_id (options_details trigger) ''Sent'') (\<lambda>sent.
                       if \<not> truthy sent then Inr None
                       else
                         (let queued_rows_filter = Filter trigger_field_name queued ''single_select_equal'';
                              blank_rows_filter = Filter trigger_field_name (PStr []) ''empty'';
                              filter_list = [queued_rows_filter] @
                                            (if trigger_on_blank then [blank_rows_filter] else [])
                          in bind_err (get_rows env source_table_id' source_table filter_list ''OR'')
                               (\<lambda>queued_rows.
                             bind_err (dict_item configuration ''Message Template'') (\<lambda>message_template.
                             bind_err (template_url_of message_template) (\<lambda>url.
                               if \<not> truthy url then Inr None
                               else Inr (Some
                                 (\<lparr>source_table_id = source_table_id',
                                   trigger_field = trigger_field_name,
                                   recipient_field = recipient_field_name,
                                   cc_recipients = cc_recipients',
                                   queued_option_id = queued,
                                   inprogress_option_id = inprogress,
                                   sent_option_id = sent,
                                   email_template_url = url,
                                   subject = dict_get configuration ''Subject'' (PStr ''No Subject'')\<rparr>,
                                  queued_rows))))))))))
             | _ \<Rightarrow> Inr None))))))))))"

text \<open>
  Lines 196 to 234: the body of the row loop. The result \<open>None\<close> is the end of the body
  or a \<open>continue\<close>; \<open>Some e\<close> is an exception that no \<open>try\<close> of the body encloses
  (\<open>row[recipient_field]\<close> and \<open>comma_delimited_to_list\<close>), which ends the loop.
\<close>

definition process_row :: "env \<Rightarrow> pipeline \<Rightarrow> string \<Rightarrow> row \<Rightarrow> world \<Rightarrow> error option \<times> world" where
  "process_row env p access_token r w =
     (case row_update env (source_table_id p) r (trigger_field p) (inprogress_option_id p) w of
        Inl e \<Rightarrow> (None, w)
      | Inr (r1, w1) \<Rightarrow>
          (case create_email_message env (row_values r1) (email_template_url p) of
             Inl e \<Rightarrow> (None, w1)
           | Inr email_message \<Rightarrow>
               (case bind_err (dict_item (row_values r1) (recipient_field p)) comma_delimited_to_list of
                  Inl e \<Rightarrow> (Some e, w1)
                | Inr recipients \<Rightarrow>
                    if recipients = [] then (None, w1)
                    else
                      (case send_email env access_token (subject p) recipients email_message
                              None (Some (cc_recipients p)) w1 of
                         (Inl e, w2) \<Rightarrow> (None, w2)
                       | (Inr _, w2) \<Rightarrow>
                           (case row_update env (source_table_id p) r1 (trigger_field p)
                                   (sent_option_id p) w2 of
                              Inl e \<Rightarrow> (None, w2)
                            | Inr (r2, w3) \<Rightarrow> (None, w3))))))"

fun process_rows :: "env \<Rightarrow> pipeline \<Rightarrow> string \<Rightarrow> row list \<Rightarrow> world \<Rightarrow> (error + unit) \<times> world" where
  "process_rows env p access_token [] w = (Inr (), w)"
| "process_rows env p access_token (r # queued_rows) w =
     (case process_row env p access_token r w of
        (Some e, w') \<Rightarrow> (Inl e, w')
      | (None, w') \<Rightarrow> process_rows env p access_token queued_rows w')"

definition process_emailer_config :: "env \<Rightarrow> pydict \<Rightarrow> string \<Rightarrow> world \<Rightarrow> (error + unit) \<times> world" where
  "process_emailer_config env configuration access_token w =
     (case resolve_pipeline env configuration w of
        Inl e \<Rightarrow> (Inl e, w)
      | Inr None \<Rightarrow> (Inr (), w)
      | Inr (Some (p, queued_rows)) \<Rightarrow> process_rows env p access_token queued_rows w)"

subsection \<open>get\_active\_configurations\<close>

fun collapse_items :: "pydict \<Rightarrow> pydict \<Rightarrow> error + pydict" where
  "collapse_items [] new_row = Inr new_row"
| "collapse_items ((key, val) # items) new_row =
     (case val of
        PList [] \<Rightarrow> Inl (ValueError (''Expected a non-empty list for key '' @ quoted key @
                                      '', but got an empty list.''))
      | PList (x # _) \<Rightarrow> collapse_items items (dict_set key x new_row)
      | _ \<Rightarrow> collapse_items items (dict_set key val new_row))"

fun collapse_rows :: "row list \<Rightarrow> pydict list \<Rightarrow> error + pydict list" where
  "collapse_rows [] active_configurations = Inr active_configurations"
| "collapse_rows (r # rest) active_configurations =
     (case collapse_items (row_values r) [] of
        Inl e \<Rightarrow> Inl e
      | Inr new_row \<Rightarrow> collapse_rows rest (active_configurations @ [new_row]))"

definition get_active_configurations :: "env \<Rightarrow> world \<Rightarrow> pyval \<Rightarrow> error + pydict list" where
  "get_active_configurations env w config_table_id =
     bind_err (get_table w config_table_id) (\<lambda>configuration_table.
     bind_err (get_rows env config_table_id configuration_table
                 [Filter ''Active'' (PStr ''true'') ''boolean''] ''AND'') (\<lambda>active_configuration_rows.
       if active_configuration_rows = [] then Inr []
       else collapse_rows active_configuration_rows []))"

section \<open>auth.py and main.py\<close>

text \<open>
  \<open>authenticate\<close> asks the token library (cache first, device flow otherwise) and
  returns the access token or raises.
\<close>

definition authenticate :: "env \<Rightarrow> pyval \<Rightarrow> pyval \<Rightarrow> world \<Rightarrow> (error + string) \<times> world" where
  "authenticate env client_id tenant_id w =
     (msal_token env client_id tenant_id, w\<lparr>auth_calls := auth_calls w @ [(client_id, tenant_id)]\<rparr>)"

text \<open>\<open>os.getenv(name)\<close> is the variable's text, or \<open>None\<close>.\<close>

definition getenv :: "(string \<Rightarrow> string option) \<Rightarrow> string \<Rightarrow> pyval" where
  "getenv environ name = (case environ name of None \<Rightarrow> PNone | Some s \<Rightarrow> PStr s)"

text \<open>The loop over the active configurations: an exception is logged, the loop goes on.\<close>

fun run_configurations :: "env \<Rightarrow> pydict list \<Rightarrow> string \<Rightarrow> world \<Rightarrow> world" where
  "run_configurations env [] access_token w = w"
| "run_configurations env (configuration # rest) access_token w =
     (case process_emailer_config env configuration access_token w of
        (Inl e, w') \<Rightarrow> run_configurations env rest access_token w'
      | (Inr _, w') \<Rightarrow> run_configurations env rest access_token w')"

definition main :: "env \<Rightarrow> (string \<Rightarrow> string option) \<Rightarrow> world \<Rightarrow> (error + unit) \<times> world" where
  "main env environ w =
     (let client_id = getenv environ ''CLIENT_ID'';
          tenant_id = getenv environ ''TENANT_ID'';
          baserow_url = getenv environ ''BASEROW_URL'';
          baserow_api_token = getenv environ ''BASEROW_API_TOKEN'';
          config_table_id = getenv environ ''CONFIG_TABLE_ID'';
          error_table_id = getenv environ ''ERROR_TABLE_ID''
      in if \<not> list_ex truthy [client_id, tenant_id, baserow_url, baserow_api_token,
                                config_table_id, error_table_id]
         then (Inl (ValueError ''Missing environment variables''), w)
         else
           (case authenticate env client_id tenant_id w of
              (Inl e, w1) \<Rightarrow> (Inl e, w1)
            | (Inr access_token, w1) \<Rightarrow>
                (case get_active_configurations env w1 config_table_id of
                   Inl e \<Rightarrow> (Inl e, w1)
                 | Inr active_configurations \<Rightarrow>
                     (Inr (), run_configurations env active_configurations access_token w1))))"

section \<open>Reading the store\<close>

text \<open>
  What the row store holds in field \<open>f\<close> of the row \<open>rid\<close> of a table: \<open>None\<close> when
  the table or the row does not exist.
\<close>

definition stored_cell :: "world \<Rightarrow> pyval \<Rightarrow> nat \<Rightarrow> string \<Rightarrow> pyval option" where
  "stored_cell w table_id rid f =
     (case tables w table_id of
        None \<Rightarrow> None
      | Some t \<Rightarrow> map_option (\<lambda>r. cell r f) (find (\<lambda>r. row_id r = rid) (table_rows t)))"

section \<open>A worked configuration\<close>

text \<open>
  The example of the specification: a source table with a single-select field
  \<open>Status\<close> (options Queued 1, In Progress 2, Sent 3) and a text field \<open>Email\<close>; row 1 is
  blank with recipient \<open>a@x.com\<close>, row 2 is Queued with an empty recipient. The
  configuration triggers on blank. In \<open>example_env\<close> every collaborator succeeds.
\<close>

definition example_options :: "pydict list" where
  "example_options =
     [[(''id'', PInt 1), (''value'', PStr ''Queued'')],
      [(''id'', PInt 2), (''value'', PStr ''In Progress'')],
      [(''id'', PInt 3), (''value'', PStr ''Sent'')]]"

definition example_row_a :: row where
  "example_row_a = \<lparr>row_id = 1, row_values = [(''Status'', PNone), (''Email'', PStr ''a@x.com'')]\<rparr>"

definition example_row_b :: row where
  "example_row_b = \<lparr>row_id = 2, row_values = [(''Status'', PInt 1), (''Email'', PStr [])]\<rparr>"

definition example_row_commas :: row where
  "example_row_commas = \<lparr>row_id = 3, row_values = [(''Status'', PInt 1), (''Email'', PStr '','')]\<rparr>"

definition example_table :: table where
  "example_table =
     \<lparr>table_fields =
        [(''Status'', \<lparr>field_TYPE = ''single_select'', options_details = example_options\<rparr>),
         (''Email'', \<lparr>field_TYPE = ''text'', options_details = []\<rparr>)],
      table_rows = [example_row_a, example_row_b]\<rparr>"

definition example_world :: world where
  "example_world =
     \<lparr>tables = (\<lambda>table_id. if table_id = PInt 7 then Some example_table else None),
      writes = [], posts = [], auth_calls = []\<rparr>"

definition example_configuration :: pydict where
  "example_configuration =
     [(''Source Table ID'', PInt 7),
      (''Email Trigger Field'', PStr ''Status''),
      (''Trigger On Blank'', PBool True),
      (''Email Recipient Field'', PStr ''Email''),
      (''CC Recipients'', PNone),
      (''Message Template Fields'', PNone),
      (''Message Template'', PDict [(''url'', PStr ''https://templates/t1'')]),
      (''Subject'', PStr ''Hello'')]"

definition example_pipeline :: pipeline where
  "example_pipeline =
     \<lparr>source_table_id = PInt 7, trigger_field = ''Status'', recipient_field = ''Email'',
      cc_recipients = [], queued_option_id = PInt 1, inprogress_option_id = PInt 2,
      sent_option_id = PInt 3, email_template_url = PStr ''https://templates/t1'',
      subject = PStr ''Hello''\<rparr>"

definition example_env :: env where
  "example_env =
     \<lparr>get_rows_error = (\<lambda>_. False),
      update_error = (\<lambda>_ _ _ _. False),
      http_get = (\<lambda>_. Inr (200, ''Dear customer'')),
      jinja_parse_ok = (\<lambda>_. True),
      jinja_render = (\<lambda>template_content _. Inr template_content),
      graph_post = (\<lambda>_. Inr 202),
      msal_token = (\<lambda>_ _. Inr ''token'')\<rparr>"

text \<open>The same store, with the option Sent missing from the trigger field.\<close>

definition example_world_no_sent :: world where
  "example_world_no_sent =
     \<lparr>tables = (\<lambda>table_id. if table_id = PInt 7
                  then Some (example_table\<lparr>table_fields :=
                         [(''Status'', \<lparr>field_TYPE = ''single_select'',
                                        options_details = take 2 example_options\<rparr>),
                          (''Email'', \<lparr>field_TYPE = ''text'', options_details = []\<rparr>)]\<rparr>)
                  else None),
      writes = [], posts = [], auth_calls = []\<rparr>"

text \<open>Collaborators that differ from \<open>example_env\<close> in one answer.\<close>

definition example_env_claim_refused :: env where
  "example_env_claim_refused = example_env\<lparr>update_error := (\<lambda>_ rid _ _. rid = 2)\<rparr>"

definition example_env_status_200 :: env where
  "example_env_status_200 = example_env\<lparr>graph_post := (\<lambda>_. Inr 200)\<rparr>"

text \<open>
  A store with two configuration tables: table \<open>"12"\<close> has an active and an inactive
  configuration, table \<open>"13"\<close> an active one whose template reference is an empty list.
\<close>

definition example_config_world :: world where
  "example_config_world =
     \<lparr>tables = (\<lambda>table_id.
        if table_id = PStr ''12'' then
          Some \<lparr>table_fields = [],
                table_rows =
                  [\<lparr>row_id = 1,
                    row_values = [(''Active'', PBool True), (''Source Table ID'', PList [PInt 7]),
                                  (''Subject'', PStr ''Hello'')]\<rparr>,
                   \<lparr>row_id = 2,
                    row_values = [(''Active'', PBool False), (''Message Template'', PList [])]\<rparr>]\<rparr>
        else if table_id = PStr ''13'' then
          Some \<lparr>table_fields = [],
                table_rows =
                  [\<lparr>row_id = 1,
                    row_values = [(''Active'', PBool True), (''Message Template'', PList [])]\<rparr>]\<rparr>
        else None),
      writes = [], posts = [], auth_calls = []\<rparr>"

text \<open>The variables \<open>main\<close> reads from the environment.\<close>

definition required_variables :: "string list" where
  "required_variables =
     [''CLIENT_ID'', ''TENANT_ID'', ''BASEROW_URL'', ''BASEROW_API_TOKEN'',
      ''CONFIG_TABLE_ID'', ''ERROR_TABLE_ID'']"

section \<open>Dictionaries and variable names\<close>

lemma map_of_dict_set: "map_of (dict_set k v d) k' = (if k' = k then Some v else map_of d k')"
  by (induction d) auto

lemma dict_set_fresh: "k \<notin> fst ` set d \<Longrightarrow> dict_set k v d = d @ [(k, v)]"
  by (induction d) auto

lemma keys_dict_set: "fst ` set (dict_set k v d) = insert k (fst ` set d)"
proof -
  have "dom (map_of (dict_set k v d)) = insert k (dom (map_of d))"
    by (auto simp: map_of_dict_set dom_def)
  then show ?thesis by (simp add: dom_map_of_conv_image_fst)
qed

lemma space_not_in_replace_spaces: "CHR '' '' \<notin> set (replace_spaces k)"
  by (auto simp: replace_spaces_def)

lemma rename_fold_map_of:
  "map_of (foldl (\<lambda>d (key, val). dict_set (replace_spaces key) val d) acc vs)
     = map_of (rev (map (\<lambda>(key, val). (replace_spaces key, val)) vs) @ acc)"
proof (induction vs arbitrary: acc)
  case Nil
  show ?case by simp
next
  case (Cons kv vs)
  obtain key val where kv: "kv = (key, val)" by (cases kv)
  have "map_of (dict_set (replace_spaces key) val acc) = map_of ((replace_spaces key, val) # acc)"
    by (rule ext) (simp add: map_of_dict_set)
  then show ?case
    using Cons.IH [of "dict_set (replace_spaces key) val acc"]
    by (simp add: kv map_add_def fun_eq_iff split: option.splits)
qed

lemma rename_variables_later_wins:
  "map_of (rename_variables variables)
     = map_of (rev (map (\<lambda>(key, val). (replace_spaces key, val)) variables))"
  using rename_fold_map_of [of "[]" variables] by (simp add: rename_variables_def)

lemma rename_variables_keys:
  "list_all (\<lambda>k. CHR '' '' \<notin> set k) (map fst (rename_variables variables))"
proof -
  have "dom (map_of (rename_variables variables))
          = dom (map_of (rev (map (\<lambda>(key, val). (replace_spaces key, val)) variables)))"
    by (simp only: rename_variables_later_wins)
  then have "fst ` set (rename_variables variables) = replace_spaces ` fst ` set variables"
    by (force simp: dom_map_of_conv_image_fst image_iff)
  then show ?thesis
    unfolding list_all_iff by (auto simp: space_not_in_replace_spaces)
qed

text \<open>
  C10. When the template is fetched and parses, \<open>create_email_message\<close> renders it with
  the renamed variables. Every space of a key becomes an underscore, the leading and the
  trailing ones too, so no variable name contains a space; the value a name gets is that
  of the last key renamed to it; two keys with the same renaming, such as \<open>a b\<close> and
  \<open>a_b\<close>, leave one variable holding the later key's value.
\<close>

theorem create_email_message_renames_keys:
  assumes "http_get env template_url = Inr (status_code, template_content)"
    and "raise_for_status status_code = Inr ()"
    and "jinja_parse_ok env template_content"
  shows "create_email_message env variables template_url
           = jinja_render env template_content (rename_variables variables)
       \<and> list_all (\<lambda>k. CHR '' '' \<notin> set k) (map fst (rename_variables variables))
       \<and> replace_spaces ('' '' @ key @ '' '') = ''_'' @ replace_spaces key @ ''_''
       \<and> length (replace_spaces key) = length key
       \<and> map_of (rename_variables variables)
           = map_of (rev (map (\<lambda>(key, val). (replace_spaces key, val)) variables))
       \<and> (replace_spaces k1 = replace_spaces k2 \<longrightarrow>
            rename_variables [(k1, v1), (k2, v2)] = [(replace_spaces k2, v2)])
       \<and> create_email_message env [(''a b'', v1), (''a_b'', v2)] template_url
           = jinja_render env template_content [(''a_b'', v2)]"
proof -
  have run: "create_email_message env vs template_url
               = jinja_render env template_content (rename_variables vs)" for vs
    using assms
    by (simp add: create_email_message_def bind_err_def validate_jinja2_template_def)
  have two: "rename_variables [(''a b'', v1), (''a_b'', v2)] = [(''a_b'', v2)]"
    by (simp add: rename_variables_def replace_spaces_def)
  show ?thesis
    using run [of variables] run [of "[(''a b'', v1), (''a_b'', v2)]"] two
      rename_variables_keys [of variables] rename_variables_later_wins [of variables]
    by (simp add: replace_spaces_def rename_variables_def)
qed

theorem create_email_message_renames_keys_witness:
  "create_email_message example_env [(''first name'', PStr ''Ann''), (''first_name'', PStr ''Bob'')]
       (PStr ''https://templates/t1'') = Inr ''Dear customer''
   \<and> rename_variables [(''first name'', PStr ''Ann''), (''first_name'', PStr ''Bob'')]
       = [(''first_name'', PStr ''Bob'')]"
  using create_email_message_renames_keys
    [of example_env "PStr ''https://templates/t1''" 200 "''Dear customer''"
        "[(''first name'', PStr ''Ann''), (''first_name'', PStr ''Bob'')]" "[]"
        "''first name''" "''first_name''" "PStr ''Ann''" "PStr ''Bob''"]
  by (simp add: example_env_def raise_for_status_def replace_spaces_def)

section \<open>The runner\<close>

lemma process_emailer_config_empty_configuration:
  "process_emailer_config env [] access_token w = (Inl (KeyError (PStr ''Source Table ID'')), w)"
  by (simp add: process_emailer_config_def resolve_pipeline_def bind_err_def dict_item_def)

text \<open>
  C8. Whatever the configurations before it did, raised or not, each configuration of
  the list is processed, in the store its predecessors left, and the loop then goes on
  with the later ones: the loop itself never ends with an exception. A configuration
  without the key \<open>Source Table ID\<close>, for one, raises \<open>KeyError\<close>, and the
  configurations after it are processed as if it had not been there.
\<close>

theorem run_configurations_isolation:
  "run_configurations env (before @ configuration # later) access_token w
     = run_configurations env later access_token
         (snd (process_emailer_config env configuration access_token
                 (run_configurations env before access_token w)))
   \<and> fst (process_emailer_config env [] access_token w) = Inl (KeyError (PStr ''Source Table ID''))
   \<and> run_configurations env ([] # later) access_token w
       = run_configurations env later access_token w"
proof -
  have "run_configurations env (before @ configuration # later) access_token w
     = run_configurations env later access_token
         (snd (process_emailer_config env configuration access_token
                 (run_configurations env before access_token w)))"
  proof (induction before arbitrary: w)
    case Nil
    show ?case by (simp split: prod.splits sum.splits)
  next
    case (Cons c before)
    show ?case by (simp add: Cons.IH split: prod.splits sum.splits)
  qed
  then show ?thesis by (simp add: process_emailer_config_empty_configuration)
qed

section \<open>Recipient lists\<close>

lemma py_split_not_Nil: "py_split sep s \<noteq> []"
  by (induction s) (auto split: list.splits)

lemma py_split_join: "concat (map ((#) sep) (py_split sep s)) = sep # s"
  by (induction s) (auto split: list.splits simp: py_split_not_Nil)

lemma py_split_no_sep: "w \<in> set (py_split sep s) \<Longrightarrow> sep \<notin> set w"
  by (induction s arbitrary: w) (auto split: list.splits if_splits)

lemma length_py_split: "length (py_split sep s) = Suc (count_list s sep)"
  by (induction s) (auto split: list.splits simp: py_split_not_Nil)

lemma set_py_strip: "set (py_strip s) \<subseteq> set s"
proof -
  have "set (dropWhile py_isspace (rev (dropWhile py_isspace s))) \<subseteq> set (dropWhile py_isspace s)"
    using set_dropWhileD [of _ py_isspace "rev (dropWhile py_isspace s)"] by auto
  moreover have "set (dropWhile py_isspace s) \<subseteq> set s"
    using set_dropWhileD [of _ py_isspace s] by auto
  ultimately show ?thesis by (auto simp: py_strip_def)
qed

lemma last_dropWhile: "dropWhile P xs \<noteq> [] \<Longrightarrow> last (dropWhile P xs) = last xs"
  by (induction xs) (auto split: if_splits)

lemma py_strip_ends:
  "py_strip s = [] \<or> (\<not> py_isspace (hd (py_strip s)) \<and> \<not> py_isspace (last (py_strip s)))"
proof (cases "py_strip s = []")
  case True
  then show ?thesis by simp
next
  case False
  define t where "t = dropWhile py_isspace s"
  define u where "u = dropWhile py_isspace (rev t)"
  have strip: "py_strip s = rev u" by (simp add: py_strip_def t_def u_def)
  with False have u: "u \<noteq> []" by simp
  then have t: "t \<noteq> []" by (auto simp: u_def)
  have "last (py_strip s) = hd u" using u by (simp add: strip last_rev)
  moreover have "\<not> py_isspace (hd u)" using u unfolding u_def by (rule hd_dropWhile)
  moreover have "hd (py_strip s) = last u" using u by (simp add: strip hd_rev)
  moreover have "last u = hd t"
    using u t last_dropWhile [of py_isspace "rev t"] by (simp add: u_def last_rev)
  moreover have "\<not> py_isspace (hd t)" using t unfolding t_def by (rule hd_dropWhile)
  ultimately show ?thesis by simp
qed

subsection \<open>Rows without recipients\<close>

lemma send_email_frame:
  "send_email env tok subj rc body from_email cc w = (res, w') \<Longrightarrow>
     tables w' = tables w \<and> writes w' = writes w \<and> auth_calls w' = auth_calls w"
  by (auto simp: send_email_def Let_def split: if_splits sum.splits)

lemma process_row_no_recipients:
  assumes "map_of (row_values r) (recipient_field p) = Some v"
    and "comma_delimited_to_list v = Inr []"
    and "recipient_field p \<noteq> trigger_field p"
  shows "process_row env p tok r w =
           (None, if update_error env (source_table_id p) (row_id r) (trigger_field p)
                       (inprogress_option_id p)
                  then w
                  else write_row (source_table_id p) (row_id r) (trigger_field p)
                         (inprogress_option_id p) w)"
  using assms
  by (simp add: process_row_def row_update_def dict_item_def bind_err_def map_of_dict_set
      split: sum.splits)

lemma posts_write_row: "posts (write_row t i f v w) = posts w"
  by (simp add: write_row_def)

text \<open>
  C9. \<open>comma_delimited_to_list\<close> gives the empty list for every falsy input, the empty
  string as well as \<open>None\<close>. A row whose recipient field holds such a value has its
  claim attempted and is then skipped: no exception leaves the row's processing, no mail
  request is made, and the store is the one after the In Progress write (or the
  untouched one when that write was refused), whichever falsy value the field holds.
\<close>

theorem falsy_recipient_skipped:
  assumes "\<not> truthy v"
    and "map_of (row_values r) (recipient_field p) = Some v"
    and "recipient_field p \<noteq> trigger_field p"
  shows "comma_delimited_to_list v = Inr []
       \<and> comma_delimited_to_list (PStr []) = Inr []
       \<and> comma_delimited_to_list PNone = Inr []
       \<and> process_row env p tok r w =
           (None, if update_error env (source_table_id p) (row_id r) (trigger_field p)
                       (inprogress_option_id p)
                  then w
                  else write_row (source_table_id p) (row_id r) (trigger_field p)
                         (inprogress_option_id p) w)
       \<and> posts (snd (process_row env p tok r w)) = posts w"
proof -
  have empty: "comma_delimited_to_list v = Inr []"
    using assms(1) by (simp add: comma_delimited_to_list_def)
  have row: "process_row env p tok r w =
           (None, if update_error env (source_table_id p) (row_id r) (trigger_field p)
                       (inprogress_option_id p)
                  then w
                  else write_row (source_table_id p) (row_id r) (trigger_field p)
                         (inprogress_option_id p) w)"
    using assms(2) empty assms(3) by (rule process_row_no_recipients)
  show ?thesis
    using empty row by (simp add: comma_delimited_to_list_def posts_write_row)
qed

theorem falsy_recipient_skipped_witness:
  "\<not> truthy (PStr [])
   \<and> map_of (row_values example_row_b) (recipient_field example_pipeline) = Some (PStr [])
   \<and> recipient_field example_pipeline \<noteq> trigger_field example_pipeline
   \<and> process_row example_env example_pipeline ''tok'' example_row_b example_world
       = (None, write_row (PInt 7) 2 ''Status'' (PInt 2) example_world)"
  using falsy_recipient_skipped
    [of "PStr []" example_row_b example_pipeline example_env "''tok''" example_world]
  by (simp add: example_row_b_def example_pipeline_def example_env_def)

text \<open>
  C5, as the code has it. A string is split at its commas and every piece is stripped;
  empty pieces are kept. So a non-empty string with \<open>n\<close> commas gives \<open>n + 1\<close> entries,
  none containing a comma and none starting or ending with whitespace, and only the
  empty string gives the empty list. When the list is empty the row is skipped after
  its claim, with no mail request.
\<close>

theorem comma_delimited_to_list_string:
  assumes "map_of (row_values r) (recipient_field p) = Some (PStr s)"
    and "recipient_field p \<noteq> trigger_field p"
  shows "\<exists>recipients.
           comma_delimited_to_list (PStr s) = Inr recipients
         \<and> recipients = (if s = [] then [] else map py_strip (py_split (CHR '','') s))
         \<and> concat (map ((#) (CHR '','')) (py_split (CHR '','') s)) = CHR '','' # s
         \<and> (s \<noteq> [] \<longrightarrow> length recipients = Suc (count_list s (CHR '','')))
         \<and> (\<forall>e \<in> set recipients.
               CHR '','' \<notin> set e \<and> (e = [] \<or> \<not> py_isspace (hd e) \<and> \<not> py_isspace (last e)))
         \<and> (recipients = [] \<longrightarrow>
               process_row env p tok r w =
                 (None, if update_error env (source_table_id p) (row_id r) (trigger_field p)
                             (inprogress_option_id p)
                        then w
                        else write_row (source_table_id p) (row_id r) (trigger_field p)
                               (inprogress_option_id p) w)
             \<and> posts (snd (process_row env p tok r w)) = posts w)"
proof -
  define recipients where
    "recipients = (if s = [] then [] else map py_strip (py_split (CHR '','') s))"
  have parse: "comma_delimited_to_list (PStr s) = Inr recipients"
    by (simp add: comma_delimited_to_list_def recipients_def)
  have len: "s \<noteq> [] \<longrightarrow> length recipients = Suc (count_list s (CHR '',''))"
    by (simp add: recipients_def length_py_split)
  have entries: "CHR '','' \<notin> set e \<and> (e = [] \<or> \<not> py_isspace (hd e) \<and> \<not> py_isspace (last e))"
    if "e \<in> set recipients" for e
  proof -
    from that obtain piece where piece: "piece \<in> set (py_split (CHR '','') s)" "e = py_strip piece"
      by (auto simp: recipients_def split: if_splits)
    have "CHR '','' \<notin> set piece" using piece(1) by (rule py_split_no_sep)
    then have "CHR '','' \<notin> set e" using set_py_strip [of piece] piece(2) by auto
    then show ?thesis using py_strip_ends [of piece] piece(2) by auto
  qed
  have skip: "process_row env p tok r w =
                 (None, if update_error env (source_table_id p) (row_id r) (trigger_field p)
                             (inprogress_option_id p)
                        then w
                        else write_row (source_table_id p) (row_id r) (trigger_field p)
                               (inprogress_option_id p) w)
             \<and> posts (snd (process_row env p tok r w)) = posts w"
    if "recipients = []"
  proof -
    have "comma_delimited_to_list (PStr s) = Inr []" using parse that by simp
    with assms(1) have "process_row env p tok r w =
                 (None, if update_error env (source_table_id p) (row_id r) (trigger_field p)
                             (inprogress_option_id p)
                        then w
                        else write_row (source_table_id p) (row_id r) (trigger_field p)
                               (inprogress_option_id p) w)"
      using assms(2) by (rule process_row_no_recipients)
    then show ?thesis by (simp add: posts_write_row)
  qed
  have unfolded: "recipients = (if s = [] then [] else map py_strip (py_split (CHR '','') s))"
    by (simp add: recipients_def)
  have join: "concat (map ((#) (CHR '','')) (py_split (CHR '','') s)) = CHR '','' # s"
    by (rule py_split_join)
  from entries have ents: "\<forall>e \<in> set recipients.
      CHR '','' \<notin> set e \<and> (e = [] \<or> \<not> py_isspace (hd e) \<and> \<not> py_isspace (last e))"
    by blast
  from skip have sk: "recipients = [] \<longrightarrow>
               process_row env p tok r w =
                 (None, if update_error env (source_table_id p) (row_id r) (trigger_field p)
                             (inprogress_option_id p)
                        then w
                        else write_row (source_table_id p) (row_id r) (trigger_field p)
                               (inprogress_option_id p) w)
             \<and> posts (snd (process_row env p tok r w)) = posts w"
    by blast
  show ?thesis
    by (intro exI [of _ recipients] conjI) (rule parse unfolded join len ents sk)+
qed

theorem comma_delimited_to_list_string_witness:
  "map_of (row_values example_row_b) (recipient_field example_pipeline) = Some (PStr [])
   \<and> map_of (row_values example_row_commas) (recipient_field example_pipeline) = Some (PStr '','')
   \<and> recipient_field example_pipeline \<noteq> trigger_field example_pipeline
   \<and> comma_delimited_to_list (PStr '','') = Inr [[], []]
   \<and> comma_delimited_to_list (PStr []) = Inr []
   \<and> process_row example_env example_pipeline ''tok'' example_row_b example_world
       = (None, write_row (PInt 7) 2 ''Status'' (PInt 2) example_world)"
  using comma_delimited_to_list_string
    [of example_row_b example_pipeline "[]" example_env "''tok''" example_world]
    comma_delimited_to_list_string
    [of example_row_commas example_pipeline "'',''" example_env "''tok''" example_world]
  by (simp add: example_row_b_def example_row_commas_def example_pipeline_def example_env_def
      py_strip_def py_isspace_def)

text \<open>
  C5 as stated fails: \<open>"a,,b"\<close> parses to a list with an empty entry, and a recipient
  field holding \<open>","\<close> parses to two empty entries, a non-empty list, so the row is not
  skipped and a mail request with two empty addresses is made.
\<close>

theorem comma_delimited_to_list_keeps_empty_entries:
  "comma_delimited_to_list (PStr ''a,,b'') = Inr [''a'', [], ''b'']
   \<and> map mail_toRecipients
       (posts (snd (process_row example_env example_pipeline ''tok'' example_row_commas example_world)))
     = [[[], []]]"
  by (simp add: comma_delimited_to_list_def py_strip_def py_isspace_def process_row_def
      row_update_def example_env_def example_pipeline_def example_row_commas_def
      example_world_def create_email_message_def bind_err_def raise_for_status_def
      validate_jinja2_template_def dict_item_def send_email_def write_row_def Let_def)

section \<open>The row loop\<close>

subsection \<open>Writes and the store\<close>

lemma cell_dict_set:
  "cell (r\<lparr>row_values := dict_set f v (row_values r)\<rparr>) f' = (if f' = f then v else cell r f')"
  by (simp add: cell_def dict_get_def map_of_dict_set)

lemma find_write_rows:
  "find (\<lambda>r. row_id r = rid')
     (map (\<lambda>r. if row_id r = rid then r\<lparr>row_values := dict_set f v (row_values r)\<rparr> else r) rs)
   = map_option (\<lambda>r. if row_id r = rid then r\<lparr>row_values := dict_set f v (row_values r)\<rparr> else r)
       (find (\<lambda>r. row_id r = rid') rs)"
  by (induction rs) auto

lemma stored_cell_write_row:
  "stored_cell (write_row sid rid f v w) sid' rid' f' =
     (if sid' = sid \<and> rid' = rid \<and> f' = f
      then map_option (\<lambda>_. v) (stored_cell w sid' rid' f')
      else stored_cell w sid' rid' f')"
proof (cases "tables w sid")
  case None
  then show ?thesis by (simp add: stored_cell_def write_row_def)
next
  case (Some t)
  show ?thesis
  proof (cases "find (\<lambda>r. row_id r = rid') (table_rows t)")
    case None
    then show ?thesis using Some
      by (auto simp: stored_cell_def write_row_def find_write_rows)
  next
    case (Some r0)
    then have "row_id r0 = rid'" by (auto simp: find_Some_iff)
    then show ?thesis using Some \<open>tables w sid = Some t\<close>
      by (auto simp: stored_cell_def write_row_def find_write_rows cell_dict_set)
  qed
qed

lemma stored_cell_tables: "tables w' = tables w \<Longrightarrow> stored_cell w' = stored_cell w"
  by (simp add: stored_cell_def fun_eq_iff)

lemma tables_write_row_cong:
  "tables w' = tables w \<Longrightarrow> tables (write_row sid rid f v w') = tables (write_row sid rid f v w)"
  by (simp add: write_row_def)

lemma writes_write_row: "writes (write_row sid rid f v w) = writes w @ [(sid, rid, f, v)]"
  by (simp add: write_row_def)

lemma auth_calls_write_row: "auth_calls (write_row sid rid f v w) = auth_calls w"
  by (simp add: write_row_def)

lemma send_email_posts:
  "send_email env tok subj rc body from_email cc w = (Inr (), w') \<Longrightarrow>
     length (posts w') = Suc (length (posts w))"
  by (auto simp: send_email_def Let_def split: if_splits sum.splits)

text \<open>The worlds in which the body of the loop can end.\<close>

lemma process_row_outcomes:
  fixes p r env tok w
  defines "sid \<equiv> source_table_id p" and "rid \<equiv> row_id r" and "tf \<equiv> trigger_field p"
    and "ip \<equiv> inprogress_option_id p" and "st \<equiv> sent_option_id p"
  defines "w1 \<equiv> write_row sid rid tf ip w"
    and "r1 \<equiv> r\<lparr>row_values := dict_set tf ip (row_values r)\<rparr>"
  defines "w' \<equiv> snd (process_row env p tok r w)"
  shows "(update_error env sid rid tf ip \<and> w' = w)
       \<or> (writes w' = writes w @ [(sid, rid, tf, ip)] \<and> tables w' = tables w1
           \<and> auth_calls w' = auth_calls w \<and> \<not> update_error env sid rid tf ip)
       \<or> (\<exists>body recipients w2.
             create_email_message env (row_values r1) (email_template_url p) = Inr body
           \<and> bind_err (dict_item (row_values r1) (recipient_field p)) comma_delimited_to_list
               = Inr recipients
           \<and> recipients \<noteq> []
           \<and> send_email env tok (subject p) recipients body None (Some (cc_recipients p)) w1
               = (Inr (), w2)
           \<and> \<not> update_error env sid rid tf ip
           \<and> \<not> update_error env sid rid tf st
           \<and> w' = write_row sid rid tf st w2
           \<and> writes w' = writes w @ [(sid, rid, tf, ip), (sid, rid, tf, st)]
           \<and> tables w' = tables (write_row sid rid tf st w1)
           \<and> auth_calls w' = auth_calls w
           \<and> length (posts w') = Suc (length (posts w)))"
proof (cases "update_error env sid rid tf ip")
  case True
  then show ?thesis
    by (simp add: w'_def process_row_def row_update_def sid_def rid_def tf_def ip_def)
next
  case claimed: False
  have start: "row_update env (source_table_id p) r (trigger_field p) (inprogress_option_id p) w
                 = Inr (r1, w1)"
    using claimed by (simp add: row_update_def sid_def rid_def tf_def ip_def r1_def w1_def)
  have stay: "writes w1 = writes w @ [(sid, rid, tf, ip)] \<and> auth_calls w1 = auth_calls w"
    by (simp add: w1_def write_row_def)
  have rid1: "row_id r1 = rid" by (simp add: r1_def rid_def)
  show ?thesis
  proof (cases "create_email_message env (row_values r1) (email_template_url p)")
    case (Inl e)
    then have "w' = w1" by (simp add: w'_def process_row_def start)
    then show ?thesis using stay claimed by simp
  next
    case (Inr body)
    show ?thesis
    proof (cases "bind_err (dict_item (row_values r1) (recipient_field p)) comma_delimited_to_list")
      case (Inl e)
      then have "w' = w1" using Inr by (simp add: w'_def process_row_def start)
      then show ?thesis using stay claimed by simp
    next
      case recips: (Inr recipients)
      show ?thesis
      proof (cases "recipients = []")
        case True
        then have "w' = w1" using Inr recips by (simp add: w'_def process_row_def start)
        then show ?thesis using stay claimed by simp
      next
        case nonempty: False
        obtain res w2 where sent:
          "send_email env tok (subject p) recipients body None (Some (cc_recipients p)) w1 = (res, w2)"
          by (cases "send_email env tok (subject p) recipients body None (Some (cc_recipients p)) w1")
        note frame = send_email_frame [OF sent]
        show ?thesis
        proof (cases res)
          case (Inl e)
          then have "w' = w2" using Inr recips nonempty sent
            by (simp add: w'_def process_row_def start)
          then show ?thesis using stay claimed frame by simp
        next
          case ok: (Inr u)
          then have sent_ok:
            "send_email env tok (subject p) recipients body None (Some (cc_recipients p)) w1 = (Inr (), w2)"
            using sent by simp
          show ?thesis
          proof (cases "update_error env sid rid tf st")
            case True
            then have "row_update env (source_table_id p) r1 (trigger_field p) (sent_option_id p) w2
                         = Inl StoreError"
              using rid1 by (simp add: row_update_def sid_def tf_def st_def)
            then have "w' = w2" using Inr recips nonempty sent ok
              by (simp add: w'_def process_row_def start)
            then show ?thesis using stay claimed frame by simp
          next
            case False
            then have "row_update env (source_table_id p) r1 (trigger_field p) (sent_option_id p) w2
                         = Inr (r1\<lparr>row_values := dict_set tf st (row_values r1)\<rparr>,
                                write_row sid rid tf st w2)"
              using rid1 by (simp add: row_update_def sid_def tf_def st_def)
            then have final: "w' = write_row sid rid tf st w2" using Inr recips nonempty sent ok
              by (simp add: w'_def process_row_def start)
            have wr: "writes w' = writes w @ [(sid, rid, tf, ip), (sid, rid, tf, st)]"
              using frame stay by (simp add: final writes_write_row)
            have tb: "tables w' = tables (write_row sid rid tf st w1)"
              unfolding final using frame by (intro tables_write_row_cong) simp
            have ac: "auth_calls w' = auth_calls w"
              using frame stay by (simp add: final auth_calls_write_row)
            have "posts w1 = posts w" by (simp add: w1_def write_row_def)
            then have ln: "length (posts w') = Suc (length (posts w))"
              using send_email_posts [OF sent_ok] by (simp add: final write_row_def)
            have "create_email_message env (row_values r1) (email_template_url p) = Inr body
               \<and> bind_err (dict_item (row_values r1) (recipient_field p)) comma_delimited_to_list
                   = Inr recipients
               \<and> recipients \<noteq> []
               \<and> send_email env tok (subject p) recipients body None (Some (cc_recipients p)) w1
                   = (Inr (), w2)
               \<and> \<not> update_error env sid rid tf ip
               \<and> \<not> update_error env sid rid tf st
               \<and> w' = write_row sid rid tf st w2
               \<and> writes w' = writes w @ [(sid, rid, tf, ip), (sid, rid, tf, st)]
               \<and> tables w' = tables (write_row sid rid tf st w1)
               \<and> auth_calls w' = auth_calls w
               \<and> length (posts w') = Suc (length (posts w))"
              by (intro conjI) (rule Inr recips nonempty sent_ok claimed False final wr tb ac ln)+
            then show ?thesis by (intro disjI2 exI)
          qed
        qed
      qed
    qed
  qed
qed


lemma process_row_other_cells:
  assumes "rid' \<noteq> row_id r \<or> update_error env (source_table_id p) (row_id r) (trigger_field p)
                                 (inprogress_option_id p)"
  shows "stored_cell (snd (process_row env p tok r w)) (source_table_id p) rid' (trigger_field p)
           = stored_cell w (source_table_id p) rid' (trigger_field p)"
proof -
  define w' where "w' = snd (process_row env p tok r w)"
  have "w' = w \<or> tables w' = tables (write_row (source_table_id p) (row_id r) (trigger_field p)
                                       (inprogress_option_id p) w)
        \<or> tables w' = tables (write_row (source_table_id p) (row_id r) (trigger_field p)
            (sent_option_id p)
            (write_row (source_table_id p) (row_id r) (trigger_field p) (inprogress_option_id p) w))"
    using process_row_outcomes [of env p r tok w] unfolding w'_def by blast
  then consider "w' = w" | "rid' \<noteq> row_id r"
    "stored_cell w' = stored_cell (write_row (source_table_id p) (row_id r) (trigger_field p)
                                       (inprogress_option_id p) w)
     \<or> stored_cell w' = stored_cell (write_row (source_table_id p) (row_id r) (trigger_field p)
            (sent_option_id p)
            (write_row (source_table_id p) (row_id r) (trigger_field p) (inprogress_option_id p) w))"
    using assms process_row_outcomes [of env p r tok w] stored_cell_tables unfolding w'_def
    by blast
  then show ?thesis
    unfolding w'_def [symmetric]
    by cases (auto simp: stored_cell_write_row)
qed

lemma process_row_claimed_cell:
  assumes "\<not> update_error env (source_table_id p) (row_id r) (trigger_field p) (inprogress_option_id p)"
  shows "stored_cell (snd (process_row env p tok r w)) (source_table_id p) (row_id r) (trigger_field p)
           \<in> {map_option (\<lambda>_. inprogress_option_id p)
                 (stored_cell w (source_table_id p) (row_id r) (trigger_field p)),
               map_option (\<lambda>_. sent_option_id p)
                 (stored_cell w (source_table_id p) (row_id r) (trigger_field p))}"
proof -
  define w' where "w' = snd (process_row env p tok r w)"
  have "tables w' = tables (write_row (source_table_id p) (row_id r) (trigger_field p)
                                       (inprogress_option_id p) w)
        \<or> tables w' = tables (write_row (source_table_id p) (row_id r) (trigger_field p)
            (sent_option_id p)
            (write_row (source_table_id p) (row_id r) (trigger_field p) (inprogress_option_id p) w))"
    using assms process_row_outcomes [of env p r tok w] unfolding w'_def by blast
  then have "stored_cell w' = stored_cell (write_row (source_table_id p) (row_id r) (trigger_field p)
                                       (inprogress_option_id p) w)
     \<or> stored_cell w' = stored_cell (write_row (source_table_id p) (row_id r) (trigger_field p)
            (sent_option_id p)
            (write_row (source_table_id p) (row_id r) (trigger_field p) (inprogress_option_id p) w))"
    using stored_cell_tables by blast
  then show ?thesis
    unfolding w'_def [symmetric]
    by (auto simp: stored_cell_write_row option.map_comp comp_def)
qed

lemma process_rows_cells:
  assumes "process_rows env p tok rs w = (Inr (), w')"
  shows "(rid \<in> row_id ` set rs
            \<and> \<not> update_error env (source_table_id p) rid (trigger_field p) (inprogress_option_id p)
          \<longrightarrow> stored_cell w' (source_table_id p) rid (trigger_field p)
                 \<in> {map_option (\<lambda>_. inprogress_option_id p)
                       (stored_cell w (source_table_id p) rid (trigger_field p)),
                     map_option (\<lambda>_. sent_option_id p)
                       (stored_cell w (source_table_id p) rid (trigger_field p))})
       \<and> (rid \<notin> row_id ` set rs
            \<or> update_error env (source_table_id p) rid (trigger_field p) (inprogress_option_id p)
          \<longrightarrow> stored_cell w' (source_table_id p) rid (trigger_field p)
                 = stored_cell w (source_table_id p) rid (trigger_field p))"
  using assms
proof (induction rs arbitrary: w)
  case Nil
  then show ?case by simp
next
  case (Cons r rs)
  define wm where "wm = snd (process_row env p tok r w)"
  have rest: "process_rows env p tok rs wm = (Inr (), w')"
    using Cons.prems by (auto simp: wm_def split: prod.splits option.splits)
  note IH = Cons.IH [OF rest]
  show ?case
  proof (cases "rid = row_id r")
    case True
    note IH' = IH [unfolded True]
    show ?thesis
      unfolding True
    proof (intro conjI impI)
      assume "row_id r \<in> row_id ` set (r # rs)
                \<and> \<not> update_error env (source_table_id p) (row_id r) (trigger_field p)
                      (inprogress_option_id p)"
      then have ok: "\<not> update_error env (source_table_id p) (row_id r) (trigger_field p)
                         (inprogress_option_id p)"
        by blast
      have mid: "stored_cell wm (source_table_id p) (row_id r) (trigger_field p)
                   \<in> {map_option (\<lambda>_. inprogress_option_id p)
                         (stored_cell w (source_table_id p) (row_id r) (trigger_field p)),
                       map_option (\<lambda>_. sent_option_id p)
                         (stored_cell w (source_table_id p) (row_id r) (trigger_field p))}"
        unfolding wm_def by (rule process_row_claimed_cell [OF ok])
      from IH' ok have
        "stored_cell w' (source_table_id p) (row_id r) (trigger_field p)
           \<in> {map_option (\<lambda>_. inprogress_option_id p)
                 (stored_cell wm (source_table_id p) (row_id r) (trigger_field p)),
               map_option (\<lambda>_. sent_option_id p)
                 (stored_cell wm (source_table_id p) (row_id r) (trigger_field p))}
         \<or> stored_cell w' (source_table_id p) (row_id r) (trigger_field p)
             = stored_cell wm (source_table_id p) (row_id r) (trigger_field p)"
        by blast
      with mid show "stored_cell w' (source_table_id p) (row_id r) (trigger_field p)
                   \<in> {map_option (\<lambda>_. inprogress_option_id p)
                         (stored_cell w (source_table_id p) (row_id r) (trigger_field p)),
                       map_option (\<lambda>_. sent_option_id p)
                         (stored_cell w (source_table_id p) (row_id r) (trigger_field p))}"
        by (auto simp: option.map_comp comp_def)
    next
      assume "row_id r \<notin> row_id ` set (r # rs)
                \<or> update_error env (source_table_id p) (row_id r) (trigger_field p)
                     (inprogress_option_id p)"
      then have err: "update_error env (source_table_id p) (row_id r) (trigger_field p)
                        (inprogress_option_id p)"
        by simp
      then have "stored_cell wm (source_table_id p) (row_id r) (trigger_field p)
                   = stored_cell w (source_table_id p) (row_id r) (trigger_field p)"
        unfolding wm_def by (intro process_row_other_cells) blast
      moreover from IH' err have
        "stored_cell w' (source_table_id p) (row_id r) (trigger_field p)
           = stored_cell wm (source_table_id p) (row_id r) (trigger_field p)"
        by blast
      ultimately show "stored_cell w' (source_table_id p) (row_id r) (trigger_field p)
                         = stored_cell w (source_table_id p) (row_id r) (trigger_field p)"
        by simp
    qed
  next
    case False
    then have same: "stored_cell wm (source_table_id p) rid (trigger_field p)
                       = stored_cell w (source_table_id p) rid (trigger_field p)"
      unfolding wm_def by (intro process_row_other_cells) blast
    have ids: "rid \<in> row_id ` set (r # rs) \<longleftrightarrow> rid \<in> row_id ` set rs"
      using False by auto
    show ?thesis
      using IH unfolding ids same .
  qed
qed

subsection \<open>What the setup establishes\<close>

lemma bind_err_eq_Inr: "(bind_err m f = Inr y) = (\<exists>x. m = Inr x \<and> f x = Inr y)"
  by (cases m) (simp_all add: bind_err_def)

lemma dict_item_eq_Inr: "(dict_item d k = Inr v) = (map_of d k = Some v)"
  by (simp add: dict_item_def split: option.splits)

lemma get_table_eq_Inr: "(get_table w i = Inr t) = (tables w i = Some t)"
  by (simp add: get_table_def split: option.splits)

lemma table_field_item_eq_Inr: "(table_field_item t f = Inr fd) = (map_of (table_fields t) f = Some fd)"
  by (simp add: table_field_item_def split: option.splits)

lemma resolve_pipeline_SomeD:
  assumes "resolve_pipeline env configuration w = Inr (Some (p, queued_rows))"
  shows "\<exists>t fd b.
           map_of configuration ''Source Table ID'' = Some (source_table_id p)
         \<and> tables w (source_table_id p) = Some t
         \<and> map_of configuration ''Email Trigger Field'' = Some (PStr (trigger_field p))
         \<and> map_of (table_fields t) (trigger_field p) = Some fd
         \<and> get_option_id (options_details fd) ''Queued'' = Inr (queued_option_id p)
         \<and> get_option_id (options_details fd) ''In Progress'' = Inr (inprogress_option_id p)
         \<and> get_option_id (options_details fd) ''Sent'' = Inr (sent_option_id p)
         \<and> map_of configuration ''Trigger On Blank'' = Some b
         \<and> queued_rows = filter (\<lambda>r. cell r (trigger_field p) = queued_option_id p
                                     \<or> truthy b \<and> cell r (trigger_field p) = PNone) (table_rows t)"
  using assms
  unfolding resolve_pipeline_def Let_def
  by (auto simp: bind_err_eq_Inr dict_item_eq_Inr get_table_eq_Inr table_field_item_eq_Inr
        get_rows_def
      split: if_splits pyval.splits cong: filter_cong)

subsection \<open>Claim before send\<close>

text \<open>
  C2. The body of the loop ends in one of three ways. The claim write was refused:
  nothing at all has changed. Or the only write made is the In Progress write on this
  row, which then holds In Progress: this is where every failure after the claim ends
  (render, recipients, send, final write), and no other value is ever written. Or the
  writes are In Progress followed by Sent, both accepted, after a rendering that
  succeeded, a non-empty recipient list and a \<open>send_email\<close> that returned normally.
\<close>

theorem process_row_claim_before_send:
  "let sid = source_table_id p; rid = row_id r; tf = trigger_field p;
       ip = inprogress_option_id p; st = sent_option_id p;
       w' = snd (process_row env p tok r w)
   in (update_error env sid rid tf ip \<and> w' = w)
    \<or> (writes w' = writes w @ [(sid, rid, tf, ip)]
        \<and> stored_cell w' sid rid tf = map_option (\<lambda>_. ip) (stored_cell w sid rid tf)
        \<and> \<not> update_error env sid rid tf ip)
    \<or> (writes w' = writes w @ [(sid, rid, tf, ip), (sid, rid, tf, st)]
        \<and> stored_cell w' sid rid tf = map_option (\<lambda>_. st) (stored_cell w sid rid tf)
        \<and> \<not> update_error env sid rid tf ip
        \<and> \<not> update_error env sid rid tf st
        \<and> length (posts w') = Suc (length (posts w))
        \<and> (\<exists>body recipients w2.
              create_email_message env (dict_set tf ip (row_values r)) (email_template_url p)
                = Inr body
            \<and> recipients \<noteq> []
            \<and> send_email env tok (subject p) recipients body None (Some (cc_recipients p))
                (write_row sid rid tf ip w) = (Inr (), w2)))"
proof -
  define w' where "w' = snd (process_row env p tok r w)"
  define w1 where "w1 = write_row (source_table_id p) (row_id r) (trigger_field p)
                          (inprogress_option_id p) w"
  have one: "stored_cell w' = stored_cell w1" if "tables w' = tables w1"
    using that by (rule stored_cell_tables)
  have two: "stored_cell w' = stored_cell (write_row (source_table_id p) (row_id r)
                 (trigger_field p) (sent_option_id p) w1)"
    if "tables w' = tables (write_row (source_table_id p) (row_id r)
                 (trigger_field p) (sent_option_id p) w1)"
    using that by (rule stored_cell_tables)
  show ?thesis
    using process_row_outcomes [of env p r tok w] one two
    unfolding Let_def w'_def [symmetric] w1_def [symmetric]
    by (auto simp: stored_cell_write_row w1_def option.map_comp comp_def)
qed

section \<open>Option resolution\<close>

lemma build_options_index_sound:
  assumes "build_options_index opts idx = Inr idx'" and "map_of idx' k = Some od"
  shows "map_of idx k = Some od \<or> (od \<in> set opts \<and> map_of od ''value'' = Some k)"
  using assms
proof (induction opts arbitrary: idx)
  case Nil
  then show ?case by simp
next
  case (Cons option rest)
  from Cons.prems(1) obtain k0 where k0: "map_of option ''value'' = Some k0"
    and rest: "build_options_index rest (dict_set k0 option idx) = Inr idx'"
    by (auto simp: dict_item_def split: option.splits if_splits)
  from Cons.IH [OF rest Cons.prems(2)]
  show ?case using k0 by (auto simp: map_of_dict_set split: if_splits)
qed

lemma get_option_id_InrD:
  assumes "get_option_id opts label = Inr i"
  shows "\<exists>od \<in> set opts. map_of od ''value'' = Some (PStr label)"
proof -
  from assms obtain idx od where "build_options_index opts [] = Inr idx"
    and "map_of idx (PStr label) = Some od"
    by (auto simp: get_option_id_def bind_err_eq_Inr Let_def split: option.splits if_splits)
  then show ?thesis using build_options_index_sound [of opts "[]" idx "PStr label" od] by auto
qed

text \<open>
  C4. When the trigger field of the source table has no option labelled Queued, or
  none labelled In Progress, or none labelled Sent, the setup never reaches the row
  loop: \<open>process_emailer_config\<close> leaves the store, and the whole world, as it was, so
  no row is written.
\<close>

theorem missing_option_no_writes:
  assumes "map_of configuration ''Source Table ID'' = Some sid"
    and "tables w sid = Some t"
    and "map_of configuration ''Email Trigger Field'' = Some (PStr tf)"
    and "map_of (table_fields t) tf = Some fd"
    and "label \<in> {''Queued'', ''In Progress'', ''Sent''}"
    and "\<forall>od \<in> set (options_details fd). map_of od ''value'' \<noteq> Some (PStr label)"
  shows "(\<forall>p queued_rows. resolve_pipeline env configuration w \<noteq> Inr (Some (p, queued_rows)))
       \<and> snd (process_emailer_config env configuration tok w) = w
       \<and> writes (snd (process_emailer_config env configuration tok w)) = writes w"
proof -
  have none: "resolve_pipeline env configuration w \<noteq> Inr (Some (p, queued_rows))" for p queued_rows
  proof
    assume "resolve_pipeline env configuration w = Inr (Some (p, queued_rows))"
    from resolve_pipeline_SomeD [OF this] assms(1-4)
    have "get_option_id (options_details fd) ''Queued'' = Inr (queued_option_id p)"
      and "get_option_id (options_details fd) ''In Progress'' = Inr (inprogress_option_id p)"
      and "get_option_id (options_details fd) ''Sent'' = Inr (sent_option_id p)"
      by auto
    then have "\<exists>od \<in> set (options_details fd). map_of od ''value'' = Some (PStr label)"
      using assms(5) get_option_id_InrD by blast
    with assms(6) show False by blast
  qed
  then have "snd (process_emailer_config env configuration tok w) = w"
    by (auto simp: process_emailer_config_def split: sum.splits option.splits)
  with none show ?thesis by simp
qed

theorem missing_option_no_writes_witness:
  "map_of example_configuration ''Source Table ID'' = Some (PInt 7)
   \<and> map_of example_configuration ''Email Trigger Field'' = Some (PStr ''Status'')
   \<and> ''Sent'' \<in> {''Queued'', ''In Progress'', ''Sent''}
   \<and> snd (process_emailer_config example_env example_configuration ''tok'' example_world_no_sent)
       = example_world_no_sent"
  using missing_option_no_writes
    [of example_configuration "PInt 7" example_world_no_sent
        "example_table\<lparr>table_fields :=
                         [(''Status'', \<lparr>field_TYPE = ''single_select'',
                                        options_details = take 2 example_options\<rparr>),
                          (''Email'', \<lparr>field_TYPE = ''text'', options_details = []\<rparr>)]\<rparr>"
        "''Status''"
        "\<lparr>field_TYPE = ''single_select'', options_details = take 2 example_options\<rparr>"
        "''Sent''" example_env "''tok''"]
  by (simp add: example_configuration_def example_world_no_sent_def example_options_def)

section \<open>One run over the fetched rows\<close>

lemma find_distinct_row:
  "distinct (map row_id rs) \<Longrightarrow> r \<in> set rs \<Longrightarrow> find (\<lambda>x. row_id x = row_id r) rs = Some r"
  by (induction rs) (auto simp: image_iff)

text \<open>The worked configuration, evaluated.\<close>

lemma example_resolve:
  "resolve_pipeline example_env example_configuration example_world
     = Inr (Some (example_pipeline, [example_row_a, example_row_b]))"
  by (simp add: resolve_pipeline_def bind_err_def dict_item_def dict_get_def
      example_configuration_def example_world_def example_pipeline_def example_table_def
      example_options_def example_env_def get_table_def comma_delimited_to_list_def
      field_names_def table_field_item_def get_option_id_def get_rows_def template_url_of_def
      example_row_a_def example_row_b_def cell_def)

lemma example_resolve_claim_refused:
  "resolve_pipeline example_env_claim_refused example_configuration example_world
     = Inr (Some (example_pipeline, [example_row_a, example_row_b]))"
  by (simp add: resolve_pipeline_def bind_err_def dict_item_def dict_get_def
      example_configuration_def example_world_def example_pipeline_def example_table_def
      example_options_def example_env_def example_env_claim_refused_def get_table_def
      comma_delimited_to_list_def
      field_names_def table_field_item_def get_option_id_def get_rows_def template_url_of_def
      example_row_a_def example_row_b_def cell_def)

lemmas example_run_defs =
  process_row_def row_update_def create_email_message_def bind_err_def raise_for_status_def
  validate_jinja2_template_def dict_item_def send_email_def comma_delimited_to_list_def
  py_strip_def py_isspace_def Let_def
  example_env_def example_pipeline_def example_row_a_def example_row_b_def

lemma example_run:
  "process_emailer_config example_env example_configuration ''tok'' example_world
     = (Inr (),
        write_row (PInt 7) 2 ''Status'' (PInt 2)
          (write_row (PInt 7) 1 ''Status'' (PInt 3)
             (write_row (PInt 7) 1 ''Status'' (PInt 2) example_world
                \<lparr>posts := posts (write_row (PInt 7) 1 ''Status'' (PInt 2) example_world) @
                   [\<lparr>mail_endpoint = ''https://graph.microsoft.com/v1.0/me/sendMail'',
                     mail_authorization = ''Bearer tok'', mail_subject = PStr ''Hello'',
                     mail_body = ''Dear customer'', mail_toRecipients = [''a@x.com''],
                     mail_ccRecipients = None, mail_from = None\<rparr>]\<rparr>)))"
  by (simp add: process_emailer_config_def example_resolve) (simp add: example_run_defs)

lemma example_run_claim_refused:
  "process_emailer_config example_env_claim_refused example_configuration ''tok'' example_world
     = (Inr (),
          (write_row (PInt 7) 1 ''Status'' (PInt 3)
             (write_row (PInt 7) 1 ''Status'' (PInt 2) example_world
                \<lparr>posts := posts (write_row (PInt 7) 1 ''Status'' (PInt 2) example_world) @
                   [\<lparr>mail_endpoint = ''https://graph.microsoft.com/v1.0/me/sendMail'',
                     mail_authorization = ''Bearer tok'', mail_subject = PStr ''Hello'',
                     mail_body = ''Dear customer'', mail_toRecipients = [''a@x.com''],
                     mail_ccRecipients = None, mail_from = None\<rparr>]\<rparr>)))"
  by (simp add: process_emailer_config_def example_resolve_claim_refused)
     (simp add: example_run_defs example_env_claim_refused_def)

lemma stored_cell_posts: "stored_cell (w\<lparr>posts := ps\<rparr>) = stored_cell w"
  by (simp add: stored_cell_def fun_eq_iff)

text \<open>
  C1, as the code has it. Take a run of \<open>process_emailer_config\<close> that reaches the row
  loop and returns without raising, on a source table whose row identifiers are
  distinct. Every fetched row is a row of the table whose trigger field held the Queued
  identifier or was blank. After the run the store holds, for that row, the In Progress
  or the Sent identifier when the row's In Progress write was accepted, and the value
  it held before when that write was refused.
\<close>

theorem process_emailer_config_fetched_rows:
  assumes "resolve_pipeline env configuration w = Inr (Some (p, queued_rows))"
    and "process_emailer_config env configuration tok w = (Inr (), w')"
    and "tables w (source_table_id p) = Some t"
    and "distinct (map row_id (table_rows t))"
    and "r \<in> set queued_rows"
  shows "r \<in> set (table_rows t)
       \<and> (cell r (trigger_field p) = queued_option_id p \<or> cell r (trigger_field p) = PNone)
       \<and> stored_cell w (source_table_id p) (row_id r) (trigger_field p)
           = Some (cell r (trigger_field p))
       \<and> (if update_error env (source_table_id p) (row_id r) (trigger_field p)
               (inprogress_option_id p)
          then stored_cell w' (source_table_id p) (row_id r) (trigger_field p)
                 = Some (cell r (trigger_field p))
          else stored_cell w' (source_table_id p) (row_id r) (trigger_field p)
                 \<in> {Some (inprogress_option_id p), Some (sent_option_id p)})"
proof -
  from resolve_pipeline_SomeD [OF assms(1)] assms(3) obtain b where
    rows: "queued_rows = filter (\<lambda>r. cell r (trigger_field p) = queued_option_id p
                                     \<or> truthy b \<and> cell r (trigger_field p) = PNone) (table_rows t)"
    by auto
  from rows assms(5) have member: "r \<in> set (table_rows t)"
    and state: "cell r (trigger_field p) = queued_option_id p \<or> cell r (trigger_field p) = PNone"
    by auto
  have before: "stored_cell w (source_table_id p) (row_id r) (trigger_field p)
                  = Some (cell r (trigger_field p))"
    using assms(3) find_distinct_row [OF assms(4) member] by (simp add: stored_cell_def)
  have loop: "process_rows env p tok queued_rows w = (Inr (), w')"
    using assms(1,2) by (simp add: process_emailer_config_def)
  have fetched: "row_id r \<in> row_id ` set queued_rows" using assms(5) by blast
  have after: "(if update_error env (source_table_id p) (row_id r) (trigger_field p)
               (inprogress_option_id p)
          then stored_cell w' (source_table_id p) (row_id r) (trigger_field p)
                 = Some (cell r (trigger_field p))
          else stored_cell w' (source_table_id p) (row_id r) (trigger_field p)
                 \<in> {Some (inprogress_option_id p), Some (sent_option_id p)})"
    using process_rows_cells [OF loop, of "row_id r"] fetched before by auto
  show ?thesis using member state before after by blast
qed

theorem process_emailer_config_fetched_rows_witness:
  "resolve_pipeline example_env_claim_refused example_configuration example_world
     = Inr (Some (example_pipeline, [example_row_a, example_row_b]))
   \<and> fst (process_emailer_config example_env_claim_refused example_configuration ''tok''
            example_world) = Inr ()
   \<and> tables example_world (source_table_id example_pipeline) = Some example_table
   \<and> distinct (map row_id (table_rows example_table))
   \<and> \<not> update_error example_env_claim_refused (source_table_id example_pipeline)
         (row_id example_row_a) (trigger_field example_pipeline)
         (inprogress_option_id example_pipeline)
   \<and> stored_cell (snd (process_emailer_config example_env_claim_refused example_configuration
                          ''tok'' example_world))
         (source_table_id example_pipeline) (row_id example_row_a) (trigger_field example_pipeline)
       \<in> {Some (inprogress_option_id example_pipeline), Some (sent_option_id example_pipeline)}
   \<and> update_error example_env_claim_refused (source_table_id example_pipeline)
         (row_id example_row_b) (trigger_field example_pipeline)
         (inprogress_option_id example_pipeline)
   \<and> stored_cell (snd (process_emailer_config example_env_claim_refused example_configuration
                          ''tok'' example_world))
         (source_table_id example_pipeline) (row_id example_row_b) (trigger_field example_pipeline)
       = Some (cell example_row_b (trigger_field example_pipeline))"
proof -
  define w' where "w' = snd (process_emailer_config example_env_claim_refused
                               example_configuration ''tok'' example_world)"
  have ok: "fst (process_emailer_config example_env_claim_refused example_configuration ''tok''
                   example_world) = Inr ()"
    by (simp add: example_run_claim_refused)
  then have run: "process_emailer_config example_env_claim_refused example_configuration ''tok''
                    example_world = (Inr (), w')"
    unfolding w'_def by (metis prod.collapse)
  have store: "tables example_world (source_table_id example_pipeline) = Some example_table"
    by (simp add: example_world_def example_pipeline_def)
  have ids: "distinct (map row_id (table_rows example_table))"
    by (simp add: example_table_def example_row_a_def example_row_b_def)
  have accepted: "\<not> update_error example_env_claim_refused (source_table_id example_pipeline)
         (row_id example_row_a) (trigger_field example_pipeline)
         (inprogress_option_id example_pipeline)"
    by (simp add: example_env_claim_refused_def example_env_def example_row_a_def)
  have refused: "update_error example_env_claim_refused (source_table_id example_pipeline)
         (row_id example_row_b) (trigger_field example_pipeline)
         (inprogress_option_id example_pipeline)"
    by (simp add: example_env_claim_refused_def example_env_def example_row_b_def)
  have "example_row_a \<in> set [example_row_a, example_row_b]" by simp
  from process_emailer_config_fetched_rows [OF example_resolve_claim_refused run store ids this]
    accepted
  have row_a: "stored_cell w' (source_table_id example_pipeline) (row_id example_row_a)
                 (trigger_field example_pipeline)
       \<in> {Some (inprogress_option_id example_pipeline), Some (sent_option_id example_pipeline)}"
    by (auto split: if_splits)
  have "example_row_b \<in> set [example_row_a, example_row_b]" by simp
  from process_emailer_config_fetched_rows [OF example_resolve_claim_refused run store ids this]
    refused
  have row_b: "stored_cell w' (source_table_id example_pipeline) (row_id example_row_b)
                 (trigger_field example_pipeline)
       = Some (cell example_row_b (trigger_field example_pipeline))"
    by (auto split: if_splits)
  show ?thesis
    unfolding w'_def [symmetric]
    by (intro conjI) (rule example_resolve_claim_refused ok store ids accepted row_a refused row_b)+
qed

text \<open>
  C1 as stated fails. With a store that refuses the In Progress write on row 2, the run
  of the worked configuration fetches row 2 at Queued, returns normally, and leaves
  row 2 at Queued, which is neither In Progress nor Sent.
\<close>

theorem fetched_row_left_queued:
  "resolve_pipeline example_env_claim_refused example_configuration example_world
     = Inr (Some (example_pipeline, [example_row_a, example_row_b]))
   \<and> cell example_row_b ''Status'' = queued_option_id example_pipeline
   \<and> fst (process_emailer_config example_env_claim_refused example_configuration ''tok''
            example_world) = Inr ()
   \<and> stored_cell (snd (process_emailer_config example_env_claim_refused example_configuration
                          ''tok'' example_world)) (PInt 7) 2 ''Status''
       = Some (queued_option_id example_pipeline)
   \<and> queued_option_id example_pipeline \<noteq> inprogress_option_id example_pipeline
   \<and> queued_option_id example_pipeline \<noteq> sent_option_id example_pipeline"
  by (simp add: example_resolve_claim_refused example_run_claim_refused stored_cell_write_row
      stored_cell_posts)
     (simp add: stored_cell_def example_world_def example_table_def example_row_a_def
      example_row_b_def example_pipeline_def cell_def dict_get_def)

section \<open>The mail API's answer\<close>

lemma send_email_error_status:
  assumes "sliceable subj" and "400 \<le> status_code" and "status_code < 600"
    and "\<And>m. graph_post env m = Inr status_code"
  shows "fst (send_email env tok subj rc body from_email cc w) = Inl (Exception ''Failed to send email.'')"
  using assms by (simp add: send_email_def Let_def raise_for_status_def)

lemma send_email_other_status:
  assumes "sliceable subj" and "status_code < 400 \<or> 600 \<le> status_code"
    and "\<And>m. graph_post env m = Inr status_code"
  shows "fst (send_email env tok subj rc body from_email cc w) = Inr ()"
  using assms by (auto simp: send_email_def Let_def raise_for_status_def)

text \<open>
  C3 asks for an exception on every status other than 202. For the statuses 400 to 599
  \<open>send_email\<close> raises; for any other status it logs the failure and returns
  normally. At status 200 the call returns, and the row loop goes on to write Sent.
\<close>

theorem send_email_status_200_returns:
  "graph_post example_env_status_200
     \<lparr>mail_endpoint = ''https://graph.microsoft.com/v1.0/me/sendMail'',
       mail_authorization = ''Bearer tok'', mail_subject = PStr ''Hello'',
       mail_body = ''Dear customer'', mail_toRecipients = [''a@x.com''],
       mail_ccRecipients = None, mail_from = None\<rparr> = Inr 200
   \<and> fst (send_email example_env_status_200 ''tok'' (PStr ''Hello'') [''a@x.com'']
            ''Dear customer'' None (Some []) example_world) = Inr ()
   \<and> stored_cell (snd (process_row example_env_status_200 example_pipeline ''tok''
                          example_row_a example_world)) (PInt 7) 1 ''Status''
       = Some (sent_option_id example_pipeline)"
  apply (simp add: example_env_status_200_def example_env_def)
  apply (simp add: send_email_def raise_for_status_def process_row_def row_update_def
        create_email_message_def bind_err_def validate_jinja2_template_def dict_item_def
        comma_delimited_to_list_def py_strip_def py_isspace_def Let_def
        example_env_def example_pipeline_def example_row_a_def
        stored_cell_write_row stored_cell_posts)
  apply (simp add: stored_cell_def example_world_def example_table_def example_row_a_def)
  done

section \<open>The environment check\<close>

lemma process_rows_auth_calls:
  "auth_calls (snd (process_rows env p tok rs w)) = auth_calls w"
proof (induction rs arbitrary: w)
  case Nil
  show ?case by simp
next
  case (Cons r rs)
  have "auth_calls (snd (process_row env p tok r w)) = auth_calls w"
    using process_row_outcomes [of env p r tok w] by auto
  then show ?case
    using Cons.IH [of "snd (process_row env p tok r w)"]
    by (auto split: prod.splits option.splits)
qed

lemma process_emailer_config_auth_calls:
  "auth_calls (snd (process_emailer_config env configuration tok w)) = auth_calls w"
  by (auto simp: process_emailer_config_def process_rows_auth_calls
      split: sum.splits option.splits)

lemma run_configurations_auth_calls:
  "auth_calls (run_configurations env configurations tok w) = auth_calls w"
proof (induction configurations arbitrary: w)
  case Nil
  show ?case by simp
next
  case (Cons c cs)
  show ?case
    using Cons.IH [of "snd (process_emailer_config env c tok w)"]
      process_emailer_config_auth_calls [of env c tok w]
    by (auto split: prod.splits sum.splits)
qed

lemma getenv_truthy: "truthy (getenv environ name) = (environ name \<noteq> None \<and> environ name \<noteq> Some [])"
  by (simp add: getenv_def split: option.splits)

text \<open>With at least one variable set, the check passes and the token is requested.\<close>

lemma main_partial_environment:
  assumes "\<not> list_all (\<lambda>name. environ name = None \<or> environ name = Some []) required_variables"
  shows "auth_calls (snd (main env environ w))
           = auth_calls w @ [(getenv environ ''CLIENT_ID'', getenv environ ''TENANT_ID'')]"
proof -
  have "list_ex truthy [getenv environ ''CLIENT_ID'', getenv environ ''TENANT_ID'',
          getenv environ ''BASEROW_URL'', getenv environ ''BASEROW_API_TOKEN'',
          getenv environ ''CONFIG_TABLE_ID'', getenv environ ''ERROR_TABLE_ID'']"
    using assms by (simp add: required_variables_def getenv_truthy)
  then show ?thesis
    by (simp add: main_def Let_def authenticate_def run_configurations_auth_calls
        split: sum.splits prod.splits)
qed

text \<open>
  C6. When the required environment configuration is missing, that is, when each of the
  six variables is unset or empty, \<open>main\<close> raises \<open>ValueError\<close> at once: the world
  is untouched, so no token has been requested, nothing was written and no mail request
  made.
\<close>

theorem main_missing_environment:
  assumes "list_all (\<lambda>name. environ name = None \<or> environ name = Some []) required_variables"
  shows "main env environ w = (Inl (ValueError ''Missing environment variables''), w)
       \<and> auth_calls (snd (main env environ w)) = auth_calls w
       \<and> writes (snd (main env environ w)) = writes w
       \<and> posts (snd (main env environ w)) = posts w"
proof -
  have "\<not> list_ex truthy [getenv environ ''CLIENT_ID'', getenv environ ''TENANT_ID'',
          getenv environ ''BASEROW_URL'', getenv environ ''BASEROW_API_TOKEN'',
          getenv environ ''CONFIG_TABLE_ID'', getenv environ ''ERROR_TABLE_ID'']"
    using assms by (simp add: required_variables_def getenv_truthy)
  then have "main env environ w = (Inl (ValueError ''Missing environment variables''), w)"
    by (simp add: main_def Let_def)
  then show ?thesis by simp
qed

theorem main_missing_environment_witness:
  "list_all (\<lambda>name. (\<lambda>_. None :: string option) name = None
                     \<or> (\<lambda>_. None :: string option) name = Some []) required_variables
   \<and> main example_env (\<lambda>_. None) example_world
       = (Inl (ValueError ''Missing environment variables''), example_world)"
  using main_missing_environment [of "\<lambda>_. None" example_env example_world]
  by (simp add: required_variables_def)

section \<open>Loading the configurations\<close>

lemma collapse_items_Inl:
  "collapse_items items new_row = Inl e \<Longrightarrow>
     \<exists>key. (key, PList []) \<in> set items
          \<and> e = ValueError (''Expected a non-empty list for key '' @ quoted key @
                             '', but got an empty list.'')"
proof (induction items arbitrary: new_row)
  case Nil
  then show ?case by simp
next
  case (Cons kv items)
  obtain key val where kv: "kv = (key, val)" by (cases kv)
  show ?case
  proof (cases "val = PList []")
    case True
    with Cons.prems kv show ?thesis by auto
  next
    case False
    then obtain x where "collapse_items items (dict_set key x new_row) = Inl e"
      using Cons.prems kv by (auto split: pyval.splits list.splits)
    from Cons.IH [OF this] show ?thesis by auto
  qed
qed

lemma collapse_items_empty_list:
  "(key, PList []) \<in> set items \<Longrightarrow> \<exists>e. collapse_items items new_row = Inl e"
proof (induction items arbitrary: new_row)
  case Nil
  then show ?case by simp
next
  case (Cons kv items)
  obtain k val where kv: "kv = (k, val)" by (cases kv)
  show ?case
  proof (cases "val = PList []")
    case True
    then show ?thesis using kv by simp
  next
    case False
    with Cons.prems kv have "(key, PList []) \<in> set items" by auto
    from Cons.IH [OF this] show ?thesis
      using kv False by (auto split: pyval.splits list.splits)
  qed
qed

lemma collapse_items_Inr:
  assumes "distinct (map fst items)"
    and "fst ` set new_row \<inter> fst ` set items = {}"
    and "\<forall>key. (key, PList []) \<notin> set items"
  shows "collapse_items items new_row
           = Inr (new_row @ map (\<lambda>(key, val). (key, case val of PList (x # _) \<Rightarrow> x | _ \<Rightarrow> val)) items)"
  using assms
proof (induction items arbitrary: new_row)
  case Nil
  show ?case by simp
next
  case (Cons kv items)
  obtain key val where kv: "kv = (key, val)" by (cases kv)
  define c where "c = (case val of PList (x # _) \<Rightarrow> x | _ \<Rightarrow> val)"
  have fresh: "key \<notin> fst ` set new_row" using Cons.prems(2) kv by auto
  have nonempty: "val \<noteq> PList []" using Cons.prems(3) kv by auto
  have step: "collapse_items (kv # items) new_row = collapse_items items (new_row @ [(key, c)])"
    using nonempty by (simp add: kv c_def dict_set_fresh [OF fresh] split: pyval.splits list.splits)
  have "collapse_items items (new_row @ [(key, c)])
          = Inr ((new_row @ [(key, c)]) @
                 map (\<lambda>(key, val). (key, case val of PList (x # _) \<Rightarrow> x | _ \<Rightarrow> val)) items)"
  proof (rule Cons.IH)
    show "distinct (map fst items)" using Cons.prems(1) by simp
    show "fst ` set (new_row @ [(key, c)]) \<inter> fst ` set items = {}"
      using Cons.prems(1,2) kv by auto
    show "\<forall>key. (key, PList []) \<notin> set items" using Cons.prems(3) by auto
  qed
  then show ?case by (simp add: step) (simp add: kv c_def)
qed

lemma collapse_rows_Inl:
  "collapse_rows rs acc = Inl e \<Longrightarrow>
     \<exists>r \<in> set rs. \<exists>key. (key, PList []) \<in> set (row_values r)
          \<and> e = ValueError (''Expected a non-empty list for key '' @ quoted key @
                             '', but got an empty list.'')"
proof (induction rs arbitrary: acc)
  case Nil
  then show ?case by simp
next
  case (Cons r rs)
  show ?case
  proof (cases "collapse_items (row_values r) []")
    case (Inl e')
    with Cons.prems have "e' = e" by simp
    with collapse_items_Inl [OF Inl] show ?thesis by auto
  next
    case (Inr new_row)
    with Cons.prems have "collapse_rows rs (acc @ [new_row]) = Inl e" by simp
    from Cons.IH [OF this] show ?thesis by auto
  qed
qed

lemma collapse_rows_Inr:
  assumes "\<forall>r \<in> set rs. distinct (map fst (row_values r))"
    and "\<forall>r \<in> set rs. \<forall>key. (key, PList []) \<notin> set (row_values r)"
  shows "collapse_rows rs acc
           = Inr (acc @ map (\<lambda>r. map (\<lambda>(key, val). (key, case val of PList (x # _) \<Rightarrow> x | _ \<Rightarrow> val))
                                   (row_values r)) rs)"
  using assms
proof (induction rs arbitrary: acc)
  case Nil
  show ?case by simp
next
  case (Cons r rs)
  have "collapse_items (row_values r) []
          = Inr ([] @ map (\<lambda>(key, val). (key, case val of PList (x # _) \<Rightarrow> x | _ \<Rightarrow> val))
                         (row_values r))"
    using Cons.prems by (intro collapse_items_Inr) auto
  then show ?case using Cons.IH [of "acc @ [map (\<lambda>(key, val). (key, case val of PList (x # _) \<Rightarrow> x | _ \<Rightarrow> val)) (row_values r)]"] Cons.prems
    by simp
qed

lemma collapse_rows_empty_list:
  assumes "r \<in> set rs" and "(key, PList []) \<in> set (row_values r)"
  shows "\<exists>e. collapse_rows rs acc = Inl e"
  using assms
proof (induction rs arbitrary: acc)
  case Nil
  then show ?case by simp
next
  case (Cons r0 rs)
  show ?case
  proof (cases "collapse_items (row_values r0) []")
    case (Inl e)
    then show ?thesis by simp
  next
    case (Inr new_row)
    then have "r \<noteq> r0"
      using collapse_items_empty_list [of key "row_values r0" "[]"] Cons.prems(2) by auto
    with Cons.prems have "r \<in> set rs" by simp
    from Cons.IH [OF this Cons.prems(2)] show ?thesis using Inr by simp
  qed
qed

lemma active_rows:
  "get_rows env table_id t [Filter ''Active'' (PStr ''true'') ''boolean''] ''AND''
     = (if get_rows_error env table_id then Inl StoreError
        else Inr (filter (\<lambda>r. cell r ''Active'' = PBool True) (table_rows t)))"
  by (simp add: get_rows_def)

text \<open>
  C7. Take a configuration table the store can list, whose rows are dictionaries (their
  keys are distinct). If no active row holds an empty list, the call returns the active
  rows in order, each field that holds a list replaced by the list's first element and
  every other field unchanged. If some field of an active row holds an empty list, the
  call raises \<open>ValueError\<close> naming such a field. With no active row the result is the
  empty list.
\<close>

theorem get_active_configurations_collapses_lists:
  assumes "tables w config_table_id = Some t"
    and "\<not> get_rows_error env config_table_id"
    and "\<forall>r \<in> set (table_rows t). distinct (map fst (row_values r))"
  shows "(if \<exists>r \<in> set (filter (\<lambda>r. cell r ''Active'' = PBool True) (table_rows t)).
              \<exists>key. (key, PList []) \<in> set (row_values r)
          then \<exists>r \<in> set (filter (\<lambda>r. cell r ''Active'' = PBool True) (table_rows t)).
               \<exists>key. (key, PList []) \<in> set (row_values r)
                 \<and> get_active_configurations env w config_table_id
                     = Inl (ValueError (''Expected a non-empty list for key '' @ quoted key @
                                        '', but got an empty list.''))
          else get_active_configurations env w config_table_id
                 = Inr (map (\<lambda>r. map (\<lambda>(key, val).
                                     (key, case val of PList (x # _) \<Rightarrow> x | _ \<Rightarrow> val))
                                   (row_values r))
                          (filter (\<lambda>r. cell r ''Active'' = PBool True) (table_rows t))))
       \<and> (filter (\<lambda>r. cell r ''Active'' = PBool True) (table_rows t) = []
            \<longrightarrow> get_active_configurations env w config_table_id = Inr [])"
proof -
  define active where "active = filter (\<lambda>r. cell r ''Active'' = PBool True) (table_rows t)"
  have run: "get_active_configurations env w config_table_id
               = (if active = [] then Inr [] else collapse_rows active [])"
    using assms(1,2)
    by (simp add: get_active_configurations_def bind_err_def get_table_def active_rows active_def)
  have keys: "\<forall>r \<in> set active. distinct (map fst (row_values r))"
    using assms(3) by (simp add: active_def)
  show ?thesis
    unfolding active_def [symmetric]
  proof (intro conjI impI)
    show "if \<exists>r \<in> set active. \<exists>key. (key, PList []) \<in> set (row_values r)
          then \<exists>r \<in> set active. \<exists>key. (key, PList []) \<in> set (row_values r)
                 \<and> get_active_configurations env w config_table_id
                     = Inl (ValueError (''Expected a non-empty list for key '' @ quoted key @
                                        '', but got an empty list.''))
          else get_active_configurations env w config_table_id
                 = Inr (map (\<lambda>r. map (\<lambda>(key, val).
                                     (key, case val of PList (x # _) \<Rightarrow> x | _ \<Rightarrow> val))
                                   (row_values r)) active)"
    proof (cases "\<exists>r \<in> set active. \<exists>key. (key, PList []) \<in> set (row_values r)")
      case True
      then obtain r key where "r \<in> set active" "(key, PList []) \<in> set (row_values r)" by blast
      from collapse_rows_empty_list [OF this] obtain e where e: "collapse_rows active [] = Inl e"
        by blast
      have "active \<noteq> []" using \<open>r \<in> set active\<close> by auto
      with run e have "get_active_configurations env w config_table_id = Inl e" by simp
      with collapse_rows_Inl [OF e] True show ?thesis by auto
    next
      case False
      then have "\<forall>r \<in> set active. \<forall>key. (key, PList []) \<notin> set (row_values r)" by blast
      from collapse_rows_Inr [OF keys this, of "[]"] run False show ?thesis by auto
    qed
  next
    assume "active = []"
    with run show "get_active_configurations env w config_table_id = Inr []" by simp
  qed
qed

theorem get_active_configurations_collapses_lists_witness:
  "get_active_configurations example_env example_config_world (PStr ''12'')
     = Inr [[(''Active'', PBool True), (''Source Table ID'', PInt 7), (''Subject'', PStr ''Hello'')]]
   \<and> get_active_configurations example_env example_config_world (PStr ''13'')
     = Inl (ValueError (''Expected a non-empty list for key '' @ quoted ''Message Template'' @
                        '', but got an empty list.''))"
  using get_active_configurations_collapses_lists
    [of example_config_world "PStr ''12''"
        "\<lparr>table_fields = [],
          table_rows =
            [\<lparr>row_id = 1,
              row_values = [(''Active'', PBool True), (''Source Table ID'', PList [PInt 7]),
                            (''Subject'', PStr ''Hello'')]\<rparr>,
             \<lparr>row_id = 2,
              row_values = [(''Active'', PBool False), (''Message Template'', PList [])]\<rparr>]\<rparr>"
        example_env]
    get_active_configurations_collapses_lists
    [of example_config_world "PStr ''13''"
        "\<lparr>table_fields = [],
          table_rows =
            [\<lparr>row_id = 1,
              row_values = [(''Active'', PBool True), (''Message Template'', PList [])]\<rparr>]\<rparr>"
        example_env]
  by (simp add: example_config_world_def example_env_def cell_def dict_get_def)

end
